theory Spec2Isabelle
  imports Complex_Main "HOL-Library.Log_Nat"
begin

section \<open>The executor and what it does to the outside world\<close>

text \<open>
  The class \<open>SSHExecutor\<close> of \<open>ssh_executor.py\<close> keeps the addressable targets and the
  execution policy in instance fields.  An address read from the settings may be the JSON
  value \<open>null\<close>, hence \<open>string option\<close>; ports are kept as the strings the settings hold
  and converted with \<open>int(...)\<close> only inside the connecting call.  The offset and scale
  of the legacy temperature transform are the numbers the settings hold.
\<close>

record executor =
  username :: string
  password :: string
  relay_username :: string
  relay_password :: string
  current_ip :: "string option"
  current_port :: string
  secondary_ip :: "string option"
  secondary_port :: string
  relay_ip :: "string option"
  relay_ssh_port :: string
  timeout :: int
  max_attempts :: int
  wifi_iface :: "string option"
  wifi_temp_offset :: real
  wifi_temp_scale :: real

text \<open>Python truthiness of an address: \<open>None\<close> and the empty string are false.\<close>

fun truthy :: "string option \<Rightarrow> bool" where
  "truthy None = False"
| "truthy (Some s) = (s \<noteq> [])"

text \<open>
  The calls that reach outside the process, in the order they are made:
  \<open>socket.create_connection((ip, int(port)), timeout)\<close>,
  \<open>ssh.connect(ip, int(port), username, password, timeout)\<close>,
  \<open>ssh.exec_command(cmd)\<close>, \<open>ssh.close()\<close> and \<open>time.sleep(seconds)\<close>.
\<close>

datatype event =
    TcpConnect "string option" string int
  | SshConnect "string option" string string string int
  | ExecCommand string
  | SshClose
  | Sleep nat

fun is_sleep :: "event \<Rightarrow> bool" where
  "is_sleep (Sleep _) = True"
| "is_sleep _ = False"

fun is_ssh_connect :: "event \<Rightarrow> bool" where
  "is_ssh_connect (SshConnect _ _ _ _ _) = True"
| "is_ssh_connect _ = False"

section \<open>Reachability prober\<close>

text \<open>
  \<open>is_reachable\<close> (v1.3 lines 104-122, v1.1 lines 106-122).  The oracle \<open>conn\<close> says, for
  the loop variable \<open>attempt\<close>, whether \<open>socket.create_connection\<close> returns (\<open>True\<close>) or
  raises (\<open>False\<close>; a port that \<open>int\<close> rejects raises inside the same \<open>try\<close>).  The result
  is the returned boolean together with the calls made.
\<close>

function reach_loop ::
  "(int \<Rightarrow> bool) \<Rightarrow> string option \<Rightarrow> string \<Rightarrow> int \<Rightarrow> int \<Rightarrow> int \<Rightarrow> bool \<times> event list" where
  "reach_loop conn ip port tmo n attempt =
     (if attempt < n then
        (if conn attempt then (True, [TcpConnect ip port tmo])
         else
           (fst (reach_loop conn ip port tmo n (attempt + 1)),
            TcpConnect ip port tmo
              # (if attempt < n - 1 then [Sleep 5] else [])
              @ snd (reach_loop conn ip port tmo n (attempt + 1))))
      else (False, []))"
  by pat_completeness auto
termination
  by (relation "measure (\<lambda>(conn, ip, port, tmo, n, attempt). nat (n - attempt))") auto

declare reach_loop.simps [simp del]

definition is_reachable ::
  "executor \<Rightarrow> (int \<Rightarrow> bool) \<Rightarrow> string option \<Rightarrow> string \<Rightarrow> int option \<Rightarrow> int option
     \<Rightarrow> bool \<times> event list" where
  "is_reachable st conn ip port tmo_arg max_arg =
     (let tmo = (case tmo_arg of None \<Rightarrow> timeout st | Some t \<Rightarrow> t);
          n = (case max_arg of None \<Rightarrow> max_attempts st | Some m \<Rightarrow> m)
      in reach_loop conn ip port tmo n 0)"

text \<open>The calls of \<open>k\<close> failed attempts that are each followed by the retry delay.\<close>

definition failed_probes :: "string option \<Rightarrow> string \<Rightarrow> int \<Rightarrow> nat \<Rightarrow> event list" where
  "failed_probes ip port tmo k = concat (replicate k [TcpConnect ip port tmo, Sleep 5])"

text \<open>
  \<open>test_connection\<close> (v1.3 and v1.1, lines 124-141).  The network during one call is an
  oracle \<open>net ip port attempt\<close>, handed address by address to \<open>is_reachable\<close>, which is
  called with its default timeout and attempt count.  The \<open>and\<close> of the source
  short-circuits: an address that is not truthy is never probed.  The result is the returned
  address (\<open>None\<close> when nothing answers), the executor after the call and the calls made.
\<close>

definition test_connection ::
  "executor \<Rightarrow> (string option \<Rightarrow> string \<Rightarrow> int \<Rightarrow> bool)
     \<Rightarrow> string option \<times> executor \<times> event list" where
  "test_connection st net =
     (let p = (if truthy (current_ip st)
               then is_reachable st (net (current_ip st) (current_port st))
                      (current_ip st) (current_port st) None None
               else (False, []))
      in if fst p then (current_ip st, st, snd p)
         else
           (let s = (if truthy (secondary_ip st)
                     then is_reachable st (net (secondary_ip st) (secondary_port st))
                            (secondary_ip st) (secondary_port st) None None
                     else (False, []))
            in if fst s
               then (secondary_ip st,
                     st\<lparr>current_ip := secondary_ip st, current_port := secondary_port st\<rparr>,
                     snd p @ snd s)
               else (None, st, snd p @ snd s)))"

section \<open>Command executor\<close>

text \<open>
  What one session attempt meets.  \<open>ssh.connect\<close> may raise
  \<open>paramiko.AuthenticationException\<close> or any other exception (refused, timed out, a port
  that \<open>int\<close> rejects); with the session open, \<open>exec_command\<close> or \<open>recv_exit_status\<close> may
  still raise; otherwise the remote command finishes with an exit status and the two
  output streams, which are then read to their end.
\<close>

datatype outcome =
    AuthFailed
  | ConnectFailed
  | ExecFailed
  | Exited int string string

fun raised :: "outcome \<Rightarrow> bool" where
  "raised (Exited _ _ _) = False"
| "raised _ = True"

text \<open>
  The calls of an attempt that ends in an exception (v1.3): \<open>ssh\<close> stays \<open>None\<close> when
  \<open>_connect\<close> raises, so only an opened session is closed by the \<open>finally\<close> block.  (v1.1
  builds the client before the \<open>try\<close> and also calls \<open>close\<close> on the client that never
  connected; apart from that call the two versions make the same calls.)
\<close>

definition connect_call :: "executor \<Rightarrow> event" where
  "connect_call st =
     SshConnect (current_ip st) (current_port st) (username st) (password st) (timeout st)"

fun raised_calls :: "executor \<Rightarrow> string \<Rightarrow> outcome \<Rightarrow> event list" where
  "raised_calls st cmd ExecFailed = [connect_call st, ExecCommand cmd, SshClose]"
| "raised_calls st cmd _ = [connect_call st]"

text \<open>
  \<open>execute_command\<close> (v1.3 lines 152-196, v1.1 lines 146-185).  \<open>ssh attempt\<close> is what the
  session opened in iteration \<open>attempt\<close> meets.  A finished remote command returns at once,
  \<open>True\<close> for exit status 0 and \<open>False\<close> otherwise; an exception is logged, the retry delay is
  slept unless this was the last iteration, and the loop goes on.
\<close>

function exec_loop ::
  "executor \<Rightarrow> (int \<Rightarrow> outcome) \<Rightarrow> string \<Rightarrow> int \<Rightarrow> int \<Rightarrow> bool \<times> event list" where
  "exec_loop st ssh command n attempt =
     (if attempt < n then
        (let cmd = (if take 5 command = ''sudo ''
                    then ''echo '' @ password st @ '' | sudo -S '' @ drop 5 command
                    else command)
         in case ssh attempt of
              Exited exit_status out err \<Rightarrow>
                (exit_status = 0, [connect_call st, ExecCommand cmd, SshClose])
            | failure \<Rightarrow>
                (fst (exec_loop st ssh command n (attempt + 1)),
                 raised_calls st cmd failure
                   @ (if attempt < n - 1 then [Sleep 5] else [])
                   @ snd (exec_loop st ssh command n (attempt + 1))))
      else (False, []))"
  by pat_completeness auto
termination
  by (relation "measure (\<lambda>(st, ssh, command, n, attempt). nat (n - attempt))") auto

declare exec_loop.simps [simp del]

definition execute_command ::
  "executor \<Rightarrow> (int \<Rightarrow> outcome) \<Rightarrow> string \<Rightarrow> int option \<Rightarrow> bool \<times> event list" where
  "execute_command st ssh command max_arg =
     (if \<not> truthy (current_ip st) \<or> password st = [] then (False, [])
      else exec_loop st ssh command
             (case max_arg of None \<Rightarrow> max_attempts st | Some m \<Rightarrow> m) 0)"

text \<open>
  \<open>execute_command_capture\<close> (v1.3 lines 198-232, v1.1 lines 187-219) returns the tuple
  \<open>(ok, stdout, stderr, exit_status)\<close>.
\<close>

function capture_loop ::
  "executor \<Rightarrow> (int \<Rightarrow> outcome) \<Rightarrow> string \<Rightarrow> int \<Rightarrow> int
     \<Rightarrow> (bool \<times> string \<times> string \<times> int) \<times> event list" where
  "capture_loop st ssh command n attempt =
     (if attempt < n then
        (case ssh attempt of
           Exited exit_status out err \<Rightarrow>
             ((exit_status = 0, out, err, exit_status),
              [connect_call st, ExecCommand command, SshClose])
         | failure \<Rightarrow>
             (fst (capture_loop st ssh command n (attempt + 1)),
              raised_calls st command failure
                @ (if attempt < n - 1 then [Sleep 5] else [])
                @ snd (capture_loop st ssh command n (attempt + 1))))
      else ((False, [], ''max attempts exceeded'', - 1), []))"
  by pat_completeness auto
termination
  by (relation "measure (\<lambda>(st, ssh, command, n, attempt). nat (n - attempt))") auto

declare capture_loop.simps [simp del]

definition execute_command_capture ::
  "executor \<Rightarrow> (int \<Rightarrow> outcome) \<Rightarrow> string \<Rightarrow> int option
     \<Rightarrow> (bool \<times> string \<times> string \<times> int) \<times> event list" where
  "execute_command_capture st ssh command max_arg =
     (if \<not> truthy (current_ip st) \<or> password st = []
      then ((False, [], ''no ip/password'', - 1), [])
      else capture_loop st ssh command
             (case max_arg of None \<Rightarrow> max_attempts st | Some m \<Rightarrow> m) 0)"

text \<open>
  \<open>execute_command_all\<close> (v1.3 lines 234-247, v1.1 lines 221-234).  The run the source
  calls \<open>primary\<close> goes to the target the executor points at on entry; the run it calls
  \<open>secondary\<close> is made with \<open>current_ip\<close> and \<open>current_port\<close> overwritten by the secondary
  address, and the saved pair is written back afterwards.  Each run meets its own sessions
  (\<open>ssh1\<close>, \<open>ssh2\<close>).
\<close>

definition execute_command_all ::
  "executor \<Rightarrow> (int \<Rightarrow> outcome) \<Rightarrow> (int \<Rightarrow> outcome) \<Rightarrow> string
     \<Rightarrow> bool \<times> executor \<times> event list" where
  "execute_command_all st ssh1 ssh2 command =
     (let primary = execute_command st ssh1 command None
      in if truthy (secondary_ip st)
         then
           (let orig_ip = current_ip st;
                orig_port = current_port st;
                st1 = st\<lparr>current_ip := secondary_ip st, current_port := secondary_port st\<rparr>;
                secondary = execute_command st1 ssh2 command None;
                st2 = st1\<lparr>current_ip := orig_ip, current_port := orig_port\<rparr>
            in (fst primary \<and> fst secondary, st2, snd primary @ snd secondary))
         else (fst primary \<and> True, st, snd primary))"

text \<open>The strings handed to \<open>exec_command\<close> in a sequence of calls.\<close>

fun transmitted :: "event list \<Rightarrow> string list" where
  "transmitted [] = []"
| "transmitted (ExecCommand c # es) = c # transmitted es"
| "transmitted (_ # es) = transmitted es"

text \<open>
  The executor that \<open>__init__\<close> builds when there is no settings file and no stored secret
  (\<open>_default_config\<close>, the \<open>or "default_password"\<close> fallbacks and the class attributes).
\<close>

definition default_executor :: executor where
  "default_executor =
     \<lparr> username = ''roz'', password = ''default_password'',
       relay_username = ''vind-admin'', relay_password = ''default_password'',
       current_ip = Some ''10.5.6.100'', current_port = ''2222'',
       secondary_ip = None, secondary_port = ''22'',
       relay_ip = Some ''10.5.6.100'', relay_ssh_port = ''22'',
       timeout = 5, max_attempts = 3,
       wifi_iface = Some ''wlx782288d993c0'',
       wifi_temp_offset = 32, wifi_temp_scale = 5 / 2 \<rparr>"

text \<open>
  The same executor with a secondary address in the settings, and three states of the
  network: only the secondary address answers, every address answers, only the primary
  address answers.
\<close>

definition two_path_executor :: executor where
  "two_path_executor = default_executor\<lparr>secondary_ip := Some ''10.5.6.101''\<rparr>"

definition secondary_only :: "string option \<Rightarrow> string \<Rightarrow> int \<Rightarrow> bool" where
  "secondary_only ip port attempt = (ip = Some ''10.5.6.101'' \<and> port = ''22'')"

definition all_up :: "string option \<Rightarrow> string \<Rightarrow> int \<Rightarrow> bool" where
  "all_up ip port attempt = True"

definition primary_only :: "string option \<Rightarrow> string \<Rightarrow> int \<Rightarrow> bool" where
  "primary_only ip port attempt = (ip = Some ''10.5.6.100'' \<and> port = ''2222'')"

text \<open>That executor as a failover to the secondary leaves it.\<close>

definition failed_over :: executor where
  "failed_over = two_path_executor\<lparr>current_ip := Some ''10.5.6.101'', current_port := ''22''\<rparr>"

text \<open>
  Sessions of the examples: every attempt runs the command, which prints the given text and
  exits with status 0; no attempt connects.
\<close>

definition prints :: "string \<Rightarrow> int \<Rightarrow> outcome" where
  "prints out attempt = Exited 0 out []"

definition unreachable :: "int \<Rightarrow> outcome" where
  "unreachable attempt = ConnectFailed"

section \<open>Text of the temperature probe\<close>

text \<open>
  The remote output is decoded to a Python \<open>str\<close>; a \<open>char\<close> stands for one code point
  below 256.  \<open>str.strip\<close> and the regular-expression class \<open>\s\<close> take the same
  characters for blanks, \<open>\d\<close> is \<open>0-9\<close> in this range, and \<open>\b\<close> sees as word
  characters the letters, digits and numeric signs below together with the underscore.
\<close>

definition is_space :: "char \<Rightarrow> bool" where
  "is_space c = ((of_char c :: nat) \<in> {9..13} \<union> {28..32} \<union> {133, 160})"

definition is_digit :: "char \<Rightarrow> bool" where
  "is_digit c = ((of_char c :: nat) \<in> {48..57})"

definition is_word :: "char \<Rightarrow> bool" where
  "is_word c = ((of_char c :: nat) \<in> {48..57} \<union> {65..90} \<union> {95} \<union> {97..122}
      \<union> {170, 178, 179, 181, 185, 186} \<union> {188..190} \<union> {192..214} \<union> {216..246}
      \<union> {248..255})"

definition strip :: "string \<Rightarrow> string" where
  "strip s = rev (dropWhile is_space (rev (dropWhile is_space s)))"

text \<open>
  The number pattern shared by both regular expressions, \<open>-?\d+(?:\.\d+)?\<close>, matched at
  the head of a string: the matched text and what follows it.  Each part is greedy, and
  giving back a character never lets a longer pattern succeed, since what must follow a
  shortened match is never a digit or a dot.
\<close>

definition number_at :: "string \<Rightarrow> (string \<times> string) option" where
  "number_at s =
     (let sign = (case s of c # _ \<Rightarrow> if c = CHR ''-'' then ''-'' else [] | [] \<Rightarrow> []);
          s1 = drop (length sign) s;
          ds = takeWhile is_digit s1;
          s2 = dropWhile is_digit s1
      in if ds = [] then None
         else
           (case s2 of
              c # t \<Rightarrow>
                if c = CHR ''.'' \<and> takeWhile is_digit t \<noteq> []
                then Some (sign @ ds @ ''.'' @ takeWhile is_digit t, dropWhile is_digit t)
                else Some (sign @ ds, s2)
            | [] \<Rightarrow> Some (sign @ ds, s2)))"

text \<open>
  \<open>re.finditer(r"temperature:\s*(-?\d+(?:\.\d+)?)", proc_out)\<close>: the texts of group 1 of
  the successive matches, each search resuming where the previous match ended.
\<close>

lemma number_at_shorter:
  assumes "number_at t = Some (num, rest)"
  shows "length rest < length t"
proof -
  define sign where "sign = (case t of c # _ \<Rightarrow> if c = CHR ''-'' then ''-'' else [] | [] \<Rightarrow> [])"
  define s1 where "s1 = drop (length sign) t"
  have split: "length (takeWhile is_digit s1) + length (dropWhile is_digit s1) = length s1"
    by (metis length_append takeWhile_dropWhile_id)
  have s1: "length s1 \<le> length t" by (simp add: s1_def)
  have digits: "takeWhile is_digit s1 \<noteq> []"
    using assms by (auto simp: number_at_def Let_def sign_def s1_def split: if_splits)
  then have less: "length (dropWhile is_digit s1) < length t"
    using split s1 by (cases "takeWhile is_digit s1") simp_all
  have "rest = dropWhile is_digit s1
      \<or> (\<exists>c u. dropWhile is_digit s1 = c # u \<and> rest = dropWhile is_digit u)"
    using assms
    by (auto simp: number_at_def Let_def sign_def s1_def split: if_splits list.splits)
  then show ?thesis
  proof
    assume "rest = dropWhile is_digit s1"
    then show ?thesis using less by simp
  next
    assume "\<exists>c u. dropWhile is_digit s1 = c # u \<and> rest = dropWhile is_digit u"
    then obtain c u where u: "dropWhile is_digit s1 = c # u" "rest = dropWhile is_digit u"
      by blast
    have "length rest \<le> length u" using u(2) by (simp add: length_dropWhile_le)
    then show ?thesis using less u(1) by simp
  qed
qed

function temperature_matches :: "string \<Rightarrow> string list" where
  "temperature_matches [] = []"
| "temperature_matches (c # cs) =
     (if take 12 (c # cs) = ''temperature:''
      then
        (case number_at (dropWhile is_space (drop 12 (c # cs))) of
           Some (num, rest) \<Rightarrow> num # temperature_matches rest
         | None \<Rightarrow> temperature_matches cs)
      else temperature_matches cs)"
  by pat_completeness auto
termination
proof (relation "measure length")
  fix c cs x2 num rest
  assume "number_at (dropWhile is_space (drop 12 (c # cs))) = Some x2" and "(num, rest) = x2"
  then have "length rest < length (dropWhile is_space (drop 12 (c # cs)))"
    using number_at_shorter by metis
  also have "\<dots> \<le> length (drop 12 (c # cs))" by (rule length_dropWhile_le)
  also have "\<dots> \<le> length (c # cs)" by simp
  finally show "(rest, c # cs) \<in> measure length" by simp
qed simp_all

text \<open>
  \<open>re.search(r"(-?\d+(?:\.\d+)?)\s*\<degree>?\s*[Cc]\b", out)\<close>: group 1 of the leftmost match.
  The degree sign is code point 176.
\<close>

definition celsius_at :: "string \<Rightarrow> string option" where
  "celsius_at s =
     (case number_at s of
        None \<Rightarrow> None
      | Some (num, rest) \<Rightarrow>
          (let r1 = dropWhile is_space rest;
               r2 = (case r1 of c # t \<Rightarrow> if c = CHR 0xB0 then t else r1 | [] \<Rightarrow> r1);
               r3 = dropWhile is_space r2
           in case r3 of
                c # t \<Rightarrow>
                  if (c = CHR ''C'' \<or> c = CHR ''c'')
                     \<and> (case t of d # _ \<Rightarrow> \<not> is_word d | [] \<Rightarrow> True)
                  then Some num else None
              | [] \<Rightarrow> None))"

fun celsius_search :: "string \<Rightarrow> string option" where
  "celsius_search [] = None"
| "celsius_search (c # cs) =
     (case celsius_at (c # cs) of
        Some num \<Rightarrow> Some num
      | None \<Rightarrow> celsius_search cs)"

section \<open>Python floats\<close>

text \<open>
  A Python float is an IEEE 754 binary64 number.  A finite one is the real number it
  denotes; the infinities and not-a-number are one value, \<open>NonFinite\<close>: the code only
  subtracts, multiplies, divides by 1000 and compares with finite bounds, and under these
  a value that is not finite stays so and fails every range test.
\<close>

datatype pyfloat = Finite real | NonFinite

text \<open>The nearest integer, a tie going to the even one.\<close>

definition rnd_even :: "real \<Rightarrow> int" where
  "rnd_even y =
     (let f = \<lfloor>y\<rfloor>; d = y - of_int f
      in if d < 1 / 2 then f
         else if 1 / 2 < d then f + 1
         else if even f then f else f + 1)"

text \<open>
  The binary exponent of a magnitude \<open>a\<close>: the \<open>e\<close> with \<open>2 ^ e <= a < 2 ^ (e + 1)\<close>, kept
  between -1022 (below it the spacing of the format no longer shrinks) and 1024 (where
  everything is out of range).  The search starts at 0 and is bounded by that interval.
\<close>

fun exp_up :: "nat \<Rightarrow> real \<Rightarrow> int \<Rightarrow> int" where
  "exp_up fuel a e =
     (if fuel = 0 \<or> a < 2 powi (e + 1) then e else exp_up (fuel - 1) a (e + 1))"

fun exp_down :: "nat \<Rightarrow> real \<Rightarrow> int \<Rightarrow> int" where
  "exp_down fuel a e =
     (if fuel = 0 \<or> 2 powi e \<le> a then e else exp_down (fuel - 1) a (e - 1))"

declare exp_up.simps [simp del] exp_down.simps [simp del]

definition binade :: "real \<Rightarrow> int" where
  "binade a = (if 1 \<le> a then exp_up 1024 a 0 else exp_down 1022 a 0)"

text \<open>
  Rounding a real to binary64, to nearest with ties to even: the magnitude is rounded to
  a multiple of the spacing of its binade, 53 significant bits; a result of \<open>2 ^ 1024\<close> or
  more is an infinity.  Every operation below is the exact operation followed by this
  rounding, as IEEE 754 prescribes.
\<close>

definition to_double :: "real \<Rightarrow> pyfloat" where
  "to_double x =
     (let a = \<bar>x\<bar>;
          q = 2 powi (binade a - 52);
          r = of_int (rnd_even (a / q)) * q
      in if 2 powi 1024 \<le> r then NonFinite else Finite (if x < 0 then - r else r))"

fun fl_op :: "(real \<Rightarrow> real \<Rightarrow> real) \<Rightarrow> pyfloat \<Rightarrow> pyfloat \<Rightarrow> pyfloat" where
  "fl_op f (Finite a) (Finite b) = to_double (f a b)"
| "fl_op f _ _ = NonFinite"

text \<open>
  The comparisons of the code: \<open>clamp_min <= t <= clamp_max\<close> with -40.0 and 130.0, and
  \<open>v > 200\<close>.  (An infinity above 200 is divided by 1000 and stays an infinity; whichever
  branch a value that is not finite takes, it is out of range afterwards.)
\<close>

fun in_clamp :: "pyfloat \<Rightarrow> bool" where
  "in_clamp (Finite t) = (- 40 \<le> t \<and> t \<le> 130)"
| "in_clamp NonFinite = False"

fun above_200 :: "pyfloat \<Rightarrow> bool" where
  "above_200 (Finite v) = (200 < v)"
| "above_200 NonFinite = False"

text \<open>
  \<open>float(f"{x:.1f}")\<close>: the formatting gives the decimal with one fractional digit that is
  nearest to the value held, a tie going to the even digit, and \<open>float\<close> reads it back;
  a value that is not finite is printed and read back as itself.
\<close>

fun fmt1 :: "pyfloat \<Rightarrow> pyfloat" where
  "fmt1 (Finite x) = to_double (of_int (rnd_even (x * 10)) / 10)"
| "fmt1 NonFinite = NonFinite"

section \<open>Reading numbers\<close>

text \<open>
  \<open>float(s)\<close> on a string without surrounding blanks (every caller has stripped it):
  an optional sign, then either a spelling of infinity or not-a-number in any letter case,
  or digits with an optional fraction, or a fraction alone, with an optional exponent;
  single underscores may separate digits.  \<open>None\<close> stands for \<open>ValueError\<close>.  The value is
  the decimal read exactly and rounded once to the nearest float.
\<close>

definition digit_value :: "char \<Rightarrow> nat" where
  "digit_value c = of_char c - 48"

definition decimal :: "string \<Rightarrow> nat" where
  "decimal ds = foldl (\<lambda>acc c. 10 * acc + digit_value c) 0 ds"

fun digit_tail :: "string \<Rightarrow> string \<times> string" where
  "digit_tail [] = ([], [])"
| "digit_tail [c] = (if is_digit c then ([c], []) else ([], [c]))"
| "digit_tail (c # d # cs) =
     (if is_digit c then (c # fst (digit_tail (d # cs)), snd (digit_tail (d # cs)))
      else if c = CHR ''_'' \<and> is_digit d then (d # fst (digit_tail cs), snd (digit_tail cs))
      else ([], c # d # cs))"

definition digitpart :: "string \<Rightarrow> string \<times> string" where
  "digitpart s =
     (case s of
        c # cs \<Rightarrow> if is_digit c then (c # fst (digit_tail cs), snd (digit_tail cs)) else ([], s)
      | [] \<Rightarrow> ([], []))"

definition ascii_lower :: "char \<Rightarrow> char" where
  "ascii_lower c =
     (if (of_char c :: nat) \<in> {65..90} then char_of (of_char c + 32 :: nat) else c)"

definition py_float :: "string \<Rightarrow> pyfloat option" where
  "py_float s =
     (let negative = (case s of c # _ \<Rightarrow> c = CHR ''-'' | [] \<Rightarrow> False);
          signed = (case s of c # _ \<Rightarrow> c = CHR ''-'' \<or> c = CHR ''+'' | [] \<Rightarrow> False);
          s1 = (if signed then tl s else s);
          spelled = map ascii_lower s1;
          whole = digitpart s1;
          dotted = (case snd whole of c # _ \<Rightarrow> c = CHR ''.'' | [] \<Rightarrow> False);
          frac = (if dotted then digitpart (tl (snd whole)) else ([], snd whole));
          has_exp = (case snd frac of c # _ \<Rightarrow> c = CHR ''e'' \<or> c = CHR ''E'' | [] \<Rightarrow> False);
          e1 = (if has_exp then tl (snd frac) else snd frac);
          exp_negative = (has_exp \<and> (case e1 of c # _ \<Rightarrow> c = CHR ''-'' | [] \<Rightarrow> False));
          exp_signed = (has_exp
             \<and> (case e1 of c # _ \<Rightarrow> c = CHR ''-'' \<or> c = CHR ''+'' | [] \<Rightarrow> False));
          e2 = (if exp_signed then tl e1 else e1);
          expo = (if has_exp then digitpart e2 else ([], e2));
          mantissa = real (decimal (fst whole))
                       + real (decimal (fst frac)) / 10 ^ length (fst frac);
          scaled = (if exp_negative then mantissa / 10 ^ decimal (fst expo)
                    else mantissa * 10 ^ decimal (fst expo))
      in if spelled = ''inf'' \<or> spelled = ''infinity'' \<or> spelled = ''nan'' then Some NonFinite
         else if (fst whole = [] \<and> fst frac = []) \<or> (has_exp \<and> fst expo = [])
                 \<or> snd expo \<noteq> []
         then None
         else Some (to_double (if negative then - scaled else scaled)))"

text \<open>Python's \<open>max\<close> of a non-empty list of finite floats.\<close>

fun max_list :: "real list \<Rightarrow> real" where
  "max_list [] = 0"
| "max_list [x] = x"
| "max_list (x # y # ys) = max x (max_list (y # ys))"

section \<open>Temperature probe pipeline (v1.3)\<close>

text \<open>
  \<open>get_wifi_module_temperature\<close> of v1.3 (lines 343-456) opens one session and sends up to
  five shell snippets through \<open>_safe_read\<close>.  The remote side is given by what each snippet
  prints, \<open>None\<close> when the call raises (the session drops, or the read runs into the
  channel timeout): the first token of \<open>WFB_NICS\<close>, the first \<open>wl*\<close> entry of
  \<open>/proc/net/rtl88x2eu\<close>, the \<open>thermal_state\<close> file of a given interface, the temperature
  lines of \<open>wfb-cli drone\<close>, and the first readable \<open>temp1_input\<close>.  Any exception inside
  the function ends in \<open>return None\<close>.
\<close>

record remote =
  connects :: bool
  wfb_nics_out :: "string option"
  rtl_dir_out :: "string option"
  thermal_state_out :: "string \<Rightarrow> string option"
  wfb_cli_out :: "string option"
  hwmon_out :: "string option"

text \<open>\<open>_safe_read\<close>: the decoded output, stripped.\<close>

definition safe_read :: "string option \<Rightarrow> string option" where
  "safe_read printed = map_option strip printed"

text \<open>\<open>_pick_iface\<close> (lines 368-389); \<open>None\<close> when one of its reads raises.\<close>

definition pick_iface :: "executor \<Rightarrow> remote \<Rightarrow> string option" where
  "pick_iface st env =
     (case safe_read (wfb_nics_out env) of
        None \<Rightarrow> None
      | Some iface \<Rightarrow>
          if iface \<noteq> [] then Some iface
          else
            (case safe_read (rtl_dir_out env) of
               None \<Rightarrow> None
             | Some iface2 \<Rightarrow>
                 if iface2 \<noteq> [] then Some iface2
                 else Some (strip (case wifi_iface st of
                                     None \<Rightarrow> []
                                   | Some configured \<Rightarrow> configured))))"

text \<open>What a tier comes to: an exception, no plausible reading, or the value returned.\<close>

datatype reading = Raised | NoReading | Reading pyfloat

text \<open>
  Tier A (lines 393-410).  \<open>thermal_temps\<close> is the list \<open>temps\<close> the loop builds: the
  parsed values of all matches that lie in the plausible range, in order.
\<close>

definition kept :: "string \<Rightarrow> real option" where
  "kept num =
     (case py_float num of
        Some (Finite t) \<Rightarrow> if in_clamp (Finite t) then Some t else None
      | _ \<Rightarrow> None)"

definition thermal_temps :: "string \<Rightarrow> real list" where
  "thermal_temps proc_out = List.map_filter kept (temperature_matches proc_out)"

definition tier_a :: "remote \<Rightarrow> string \<Rightarrow> reading" where
  "tier_a env iface =
     (if iface \<noteq> [] then
        (case safe_read (thermal_state_out env iface) of
           None \<Rightarrow> Raised
         | Some proc_out \<Rightarrow>
             if thermal_temps proc_out \<noteq> []
             then Reading (fmt1 (Finite (max_list (thermal_temps proc_out))))
             else NoReading)
      else NoReading)"

text \<open>Tier B (lines 412-423); the \<open>float\<close> of the matched text is not guarded.\<close>

definition tier_b :: "string \<Rightarrow> reading" where
  "tier_b out =
     (case celsius_search out of
        None \<Rightarrow> NoReading
      | Some num \<Rightarrow>
          (case py_float num of
             None \<Rightarrow> Raised
           | Some val \<Rightarrow> if in_clamp val then Reading (fmt1 val) else NoReading))"

text \<open>Tier C (lines 425-444), on the stripped text of the sensor file.\<close>

definition tier_c :: "string \<Rightarrow> reading" where
  "tier_c val_s =
     (if val_s \<noteq> [] then
        (case py_float val_s of
           None \<Rightarrow> NoReading
         | Some v \<Rightarrow>
             (let v' = (if above_200 v then fl_op (/) v (Finite 1000) else v)
              in if in_clamp v' then Reading (fmt1 v') else NoReading))
      else NoReading)"

definition get_wifi_module_temperature :: "executor \<Rightarrow> remote \<Rightarrow> pyfloat option" where
  "get_wifi_module_temperature st env =
     (if \<not> connects env then None
      else
        (case pick_iface st env of
           None \<Rightarrow> None
         | Some iface \<Rightarrow>
             (case tier_a env iface of
                Raised \<Rightarrow> None
              | Reading t \<Rightarrow> Some t
              | NoReading \<Rightarrow>
                  (case safe_read (wfb_cli_out env) of
                     None \<Rightarrow> None
                   | Some out \<Rightarrow>
                       (case tier_b out of
                          Raised \<Rightarrow> None
                        | Reading t \<Rightarrow> Some t
                        | NoReading \<Rightarrow>
                            (case safe_read (hwmon_out env) of
                               None \<Rightarrow> None
                             | Some val_s \<Rightarrow>
                                 (case tier_c val_s of
                                    Reading t \<Rightarrow> Some t
                                  | _ \<Rightarrow> None)))))))"

text \<open>
  A companion on which every snippet prints nothing, the state from which the examples
  below set single outputs.
\<close>

definition silent_remote :: remote where
  "silent_remote =
     \<lparr> connects = True, wfb_nics_out = Some [], rtl_dir_out = Some [],
       thermal_state_out = (\<lambda>iface. Some []), wfb_cli_out = Some [], hwmon_out = Some [] \<rparr>"

section \<open>Temperature probe, legacy linear transform (v1.1)\<close>

text \<open>
  \<open>shlex.quote\<close>: a string of safe characters is left alone, any other is put in single
  quotes with each single quote inside it written as \<open>'"'"'\<close>.
\<close>

definition shlex_safe :: "char \<Rightarrow> bool" where
  "shlex_safe c = ((of_char c :: nat) \<in> {48..57} \<union> {65..90} \<union> {97..122}
      \<or> c \<in> set ''_@%+=:,./-'')"

definition shlex_quote :: "string \<Rightarrow> string" where
  "shlex_quote s =
     (if s = [] then [CHR 0x27, CHR 0x27]
      else if list_all shlex_safe s then s
      else [CHR 0x27]
             @ concat (map (\<lambda>c. if c = CHR 0x27
                                 then [CHR 0x27, CHR 0x22, CHR 0x27, CHR 0x22, CHR 0x27]
                                 else [c]) s)
             @ [CHR 0x27])"

text \<open>
  \<open>str.splitlines\<close>: the lines of a text without their terminators; a carriage return
  followed by a line feed is one terminator, and a text that ends in a terminator has no
  empty last line.
\<close>

definition is_linebreak :: "char \<Rightarrow> bool" where
  "is_linebreak c = ((of_char c :: nat) \<in> {10..13} \<union> {28..30} \<union> {133})"

fun split_lines :: "string \<Rightarrow> string \<Rightarrow> string list" where
  "split_lines line [] = (if line = [] then [] else [line])"
| "split_lines line [c] = (if is_linebreak c then [line] else [line @ [c]])"
| "split_lines line (c # d # cs) =
     (if c = CHR 0x0D \<and> d = CHR 0x0A then line # split_lines [] cs
      else if is_linebreak c then line # split_lines [] (d # cs)
      else split_lines (line @ [c]) (d # cs))"

definition splitlines :: "string \<Rightarrow> string list" where
  "splitlines s = split_lines [] s"

text \<open>
  The two commands of v1.1 (lines 338-340 and 355-364).  An interface that the settings
  hold as \<open>null\<close> is formatted as the text \<open>None\<close>.
\<close>

definition proc_cmd :: "executor \<Rightarrow> string" where
  \<open>proc_cmd st =
     ''sh -lc '' @ [CHR 0x27] @ ''timeout 2s cat ''
       @ shlex_quote (''/proc/net/rtl88x2eu/''
           @ (case wifi_iface st of None \<Rightarrow> ''None'' | Some iface \<Rightarrow> iface)
           @ ''/thermal_state'')
       @ '' 2>/dev/null || true'' @ [CHR 0x27]\<close>

definition sysfs_cmd :: string where
  \<open>sysfs_cmd =
     ''\<newline>sh -lc '' @ [CHR 0x27] @ ''\<newline>TO=2\<newline>''
     @ ''for p in /sys/class/ieee80211/*/device/hwmon/*/temp1_input ''
     @ ''/sys/class/hwmon/hwmon*/temp1_input; do\<newline>''
     @ ''  [ -r "$p" ] || continue\<newline>''
     @ ''  v=$(timeout ${TO}s cat "$p" 2>/dev/null) || continue\<newline>''
     @ ''  echo "$v"\<newline>''
     @ ''done\<newline>'' @ [CHR 0x27] @ ''\<newline>''\<close>

text \<open>
  Tier A of v1.1 (lines 332-352): the raw register value, the linear transform, the
  fallback to the raw value, the range check and the rounding of the value returned.
  The settings hold offset and scale as numbers, which \<open>float\<close> turns into floats.
  \<open>None\<close> is the fall through to the sysfs tier.
\<close>

definition legacy_tier_a ::
  "executor \<Rightarrow> bool \<times> string \<times> string \<times> int \<Rightarrow> pyfloat option" where
  "legacy_tier_a st captured =
     (case captured of (ok, out, err, code) \<Rightarrow>
        if ok \<and> strip out \<noteq> [] then
          (case py_float (strip out) of
             None \<Rightarrow> None
           | Some raw \<Rightarrow>
               (let offset = to_double (wifi_temp_offset st);
                    scale = to_double (wifi_temp_scale st);
                    temp_c = fl_op (*) (fl_op (-) raw offset) scale;
                    temp_c = (if \<not> in_clamp temp_c \<and> in_clamp raw then raw else temp_c)
                in if in_clamp temp_c then Some (fmt1 temp_c) else None))
        else None)"

text \<open>Tier B of v1.1 (lines 354-375): the first line that gives a plausible value.\<close>

fun first_plausible :: "string list \<Rightarrow> pyfloat option" where
  "first_plausible [] = None"
| "first_plausible (val_s # lines) =
     (case py_float (strip val_s) of
        None \<Rightarrow> first_plausible lines
      | Some val \<Rightarrow>
          (let val = (if above_200 val then fl_op (/) val (Finite 1000) else val)
           in if in_clamp val then Some (fmt1 val) else first_plausible lines))"

definition legacy_tier_b :: "bool \<times> string \<times> string \<times> int \<Rightarrow> pyfloat option" where
  "legacy_tier_b captured =
     (case captured of (ok, out, err, code) \<Rightarrow>
        if ok \<and> out \<noteq> [] then first_plausible (splitlines out) else None)"

text \<open>
  \<open>get_wifi_module_temperature\<close> of v1.1 (lines 316-377).  Each of its two calls of
  \<open>execute_command_capture\<close> meets its own sessions (\<open>ssh_proc\<close>, \<open>ssh_sysfs\<close>); the second
  call is made only when the first tier returns nothing.
\<close>

definition get_wifi_module_temperature_v1_1 ::
  "executor \<Rightarrow> (int \<Rightarrow> outcome) \<Rightarrow> (int \<Rightarrow> outcome) \<Rightarrow> pyfloat option" where
  "get_wifi_module_temperature_v1_1 st ssh_proc ssh_sysfs =
     (case legacy_tier_a st (fst (execute_command_capture st ssh_proc (proc_cmd st) None)) of
        Some temp_c \<Rightarrow> Some temp_c
      | None \<Rightarrow> legacy_tier_b (fst (execute_command_capture st ssh_sysfs sysfs_cmd None)))"

text \<open>
  Remote states of the examples: the sensor file alone holds \<open>9999\<close>; the driver reports
  two radio paths; the driver reports one path with three decimals, or with two.
\<close>

definition hwmon_9999 :: remote where
  "hwmon_9999 = silent_remote\<lparr>hwmon_out := Some ''9999\<newline>''\<rparr>"

definition two_paths :: remote where
  "two_paths =
     silent_remote\<lparr>thermal_state_out := (\<lambda>iface. Some ''temperature: 45 temperature: 52'')\<rparr>"

definition fine_grained :: remote where
  "fine_grained = silent_remote\<lparr>thermal_state_out := (\<lambda>iface. Some ''temperature: 45.125'')\<rparr>"

definition reported_45_15 :: remote where
  "reported_45_15 = silent_remote\<lparr>thermal_state_out := (\<lambda>iface. Some ''temperature: 45.15'')\<rparr>"

text \<open>The default executor with the scale 0.25 in its settings.\<close>

definition quarter_scale :: executor where
  "quarter_scale = default_executor\<lparr>wifi_temp_scale := 1 / 4\<rparr>"

section \<open>Properties of the reachability prober\<close>

lemma reach_loop_all_fail:
  assumes "\<forall>j. a \<le> j \<and> j < n \<longrightarrow> \<not> conn j" and "a < n"
  shows "reach_loop conn ip port tmo n a
           = (False, failed_probes ip port tmo (nat (n - 1 - a)) @ [TcpConnect ip port tmo])"
  using assms
proof (induction "nat (n - a)" arbitrary: a)
  case 0
  then show ?case by simp
next
  case (Suc m)
  have na: "\<not> conn a" using Suc.prems by simp
  show ?case
  proof (cases "a + 1 < n")
    case True
    have m: "m = nat (n - (a + 1))" using Suc.hyps(2) by linarith
    have rest: "\<forall>j. a + 1 \<le> j \<and> j < n \<longrightarrow> \<not> conn j" using Suc.prems(1) by simp
    have ih: "reach_loop conn ip port tmo n (a + 1)
        = (False, failed_probes ip port tmo (nat (n - 1 - (a + 1))) @ [TcpConnect ip port tmo])"
      by (rule Suc.hyps(1)[OF m rest True])
    have k: "nat (n - 1 - a) = Suc (nat (n - 1 - (a + 1)))" using True by linarith
    show ?thesis
      using Suc.prems(2) na True
      by (subst reach_loop.simps) (simp add: ih k failed_probes_def)
  next
    case False
    then have an: "a + 1 = n" using Suc.prems(2) by linarith
    have stop: "reach_loop conn ip port tmo n n = (False, [])"
      by (subst reach_loop.simps) simp
    show ?thesis
      using Suc.prems(2) na an
      by (subst reach_loop.simps) (simp add: stop failed_probes_def)
  qed
qed

lemma reach_loop_first_success:
  assumes "\<forall>j. a \<le> j \<and> j < k \<longrightarrow> \<not> conn j" and "a \<le> k" and "k < n" and "conn k"
  shows "reach_loop conn ip port tmo n a
           = (True, failed_probes ip port tmo (nat (k - a)) @ [TcpConnect ip port tmo])"
  using assms
proof (induction "nat (k - a)" arbitrary: a)
  case 0
  then have "a = k" by linarith
  then show ?case
    using 0 by (subst reach_loop.simps) (simp add: failed_probes_def)
next
  case (Suc m)
  have lt: "a < k" using Suc.hyps(2) by linarith
  have na: "\<not> conn a" using Suc.prems(1) lt by simp
  have m: "m = nat (k - (a + 1))" using Suc.hyps(2) by linarith
  have rest: "\<forall>j. a + 1 \<le> j \<and> j < k \<longrightarrow> \<not> conn j" using Suc.prems(1) by simp
  have le: "a + 1 \<le> k" using lt by simp
  have ih: "reach_loop conn ip port tmo n (a + 1)
      = (True, failed_probes ip port tmo (nat (k - (a + 1))) @ [TcpConnect ip port tmo])"
    by (rule Suc.hyps(1)[OF m rest le Suc.prems(3) Suc.prems(4)])
  have kk: "nat (k - a) = Suc (nat (k - (a + 1)))" using lt by linarith
  have an: "a < n" "a < n - 1" using lt Suc.prems(3) by linarith+
  show ?case
    using an na by (subst reach_loop.simps) (simp add: ih kk failed_probes_def)
qed

lemma first_success_exists:
  assumes "(0::int) \<le> i" and "conn i"
  shows "\<exists>k. 0 \<le> k \<and> k \<le> i \<and> conn k \<and> (\<forall>j. 0 \<le> j \<and> j < k \<longrightarrow> \<not> conn j)"
  using assms
proof (induction "nat i" arbitrary: i rule: less_induct)
  case less
  show ?case
  proof (cases "\<exists>j. 0 \<le> j \<and> j < i \<and> conn j")
    case True
    then obtain j where j: "0 \<le> j" "j < i" "conn j" by blast
    have "nat j < nat i" using j by linarith
    from less.hyps[OF this j(1) j(3)] obtain k where
      "0 \<le> k" "k \<le> j" "conn k" "\<forall>j. 0 \<le> j \<and> j < k \<longrightarrow> \<not> conn j" by blast
    then show ?thesis using j(2) by (intro exI[of _ k]) auto
  next
    case False
    then show ?thesis using less.prems by (intro exI[of _ i]) auto
  qed
qed

text \<open>
  Claim C6.  For every host, port, timeout and attempt count \<open>n > 0\<close> (given as arguments
  or taken from the executor), \<open>is_reachable\<close> returns \<open>True\<close> exactly when one of the
  attempts \<open>0, ..., n - 1\<close> connects.  If \<open>k\<close> is the first attempt that connects, the calls
  made are \<open>k\<close> failed connections, each followed by the 5-second delay, and then the
  connection that succeeds: nothing is attempted after it.  If all \<open>n\<close> attempts fail, the
  result is \<open>False\<close> and the calls are \<open>n - 1\<close> failed connections each followed by the
  delay and then the last failed connection, with no delay after it.
\<close>

theorem is_reachable_attempts:
  assumes "n = (case max_arg of None \<Rightarrow> max_attempts st | Some m \<Rightarrow> m)"
    and "t = (case tmo_arg of None \<Rightarrow> timeout st | Some t' \<Rightarrow> t')"
    and "0 < n"
  shows "(fst (is_reachable st conn ip port tmo_arg max_arg) \<longleftrightarrow> (\<exists>i. 0 \<le> i \<and> i < n \<and> conn i))
    \<and> (\<forall>k. 0 \<le> k \<and> k < n \<and> conn k \<and> (\<forall>j. 0 \<le> j \<and> j < k \<longrightarrow> \<not> conn j) \<longrightarrow>
          is_reachable st conn ip port tmo_arg max_arg
            = (True, failed_probes ip port t (nat k) @ [TcpConnect ip port t]))
    \<and> ((\<forall>i. 0 \<le> i \<and> i < n \<longrightarrow> \<not> conn i) \<longrightarrow>
          is_reachable st conn ip port tmo_arg max_arg
            = (False, failed_probes ip port t (nat (n - 1)) @ [TcpConnect ip port t]))"
proof -
  have unfold: "is_reachable st conn ip port tmo_arg max_arg = reach_loop conn ip port t n 0"
    using assms(1,2) by (simp add: is_reachable_def)
  have succ: "reach_loop conn ip port t n 0
      = (True, failed_probes ip port t (nat k) @ [TcpConnect ip port t])"
    if "0 \<le> k" "k < n" "conn k" "\<forall>j. 0 \<le> j \<and> j < k \<longrightarrow> \<not> conn j" for k
    using reach_loop_first_success[of 0 k conn n ip port t] that by simp
  have fail: "reach_loop conn ip port t n 0
      = (False, failed_probes ip port t (nat (n - 1)) @ [TcpConnect ip port t])"
    if "\<forall>i. 0 \<le> i \<and> i < n \<longrightarrow> \<not> conn i"
    using reach_loop_all_fail[of 0 n conn ip port t] that assms(3) by simp
  have iff: "fst (reach_loop conn ip port t n 0) \<longleftrightarrow> (\<exists>i. 0 \<le> i \<and> i < n \<and> conn i)"
  proof (cases "\<exists>i. 0 \<le> i \<and> i < n \<and> conn i")
    case True
    then obtain i where i: "0 \<le> i" "i < n" "conn i" by blast
    from first_success_exists[of i conn] i(1) i(3) obtain k where
      k: "0 \<le> k" "k \<le> i" "conn k" "\<forall>j. 0 \<le> j \<and> j < k \<longrightarrow> \<not> conn j" by blast
    have "k < n" using k(2) i(2) by simp
    from succ[OF k(1) this k(3) k(4)] True show ?thesis by simp
  next
    case False
    then have "\<forall>i. 0 \<le> i \<and> i < n \<longrightarrow> \<not> conn i" by blast
    from fail[OF this] False show ?thesis by simp
  qed
  show ?thesis
    unfolding unfold using succ fail iff by blast
qed

theorem is_reachable_attempts_witness:
  "(0::int) < 3
   \<and> is_reachable default_executor (\<lambda>i. i = 1) (Some ''10.5.6.100'') ''2222'' None None
       = (True, [TcpConnect (Some ''10.5.6.100'') ''2222'' 5, Sleep 5,
                 TcpConnect (Some ''10.5.6.100'') ''2222'' 5])
   \<and> is_reachable default_executor (\<lambda>i. False) (Some ''10.5.6.100'') ''2222'' None None
       = (False, [TcpConnect (Some ''10.5.6.100'') ''2222'' 5, Sleep 5,
                  TcpConnect (Some ''10.5.6.100'') ''2222'' 5, Sleep 5,
                  TcpConnect (Some ''10.5.6.100'') ''2222'' 5])"
proof -
  have n: "(3::int) = (case None of None \<Rightarrow> max_attempts default_executor | Some m \<Rightarrow> m)"
    and t: "(5::int) = (case None of None \<Rightarrow> timeout default_executor | Some t' \<Rightarrow> t')"
    by (simp_all add: default_executor_def)
  have pos: "(0::int) < 3" by simp
  note spec = is_reachable_attempts[OF n t pos, of _ "Some ''10.5.6.100''" "''2222''"]
  have a: "is_reachable default_executor (\<lambda>i. i = 1) (Some ''10.5.6.100'') ''2222'' None None
       = (True, failed_probes (Some ''10.5.6.100'') ''2222'' 5 (nat 1)
                  @ [TcpConnect (Some ''10.5.6.100'') ''2222'' 5])"
    using spec[of "\<lambda>i. i = 1"] by simp
  have b: "is_reachable default_executor (\<lambda>i. False) (Some ''10.5.6.100'') ''2222'' None None
       = (False, failed_probes (Some ''10.5.6.100'') ''2222'' 5 (nat (3 - 1))
                  @ [TcpConnect (Some ''10.5.6.100'') ''2222'' 5])"
    using spec[of "\<lambda>i. False"] by simp
  show ?thesis
    using a b by (simp add: failed_probes_def numeral_2_eq_2)
qed

section \<open>Properties of the command executor\<close>

lemma exec_loop_stop: "\<not> attempt < n \<Longrightarrow> exec_loop st ssh command n attempt = (False, [])"
  by (subst exec_loop.simps) simp

lemma exec_loop_exited:
  assumes "attempt < n" and "ssh attempt = Exited exit_status out err"
  shows "exec_loop st ssh command n attempt
    = (exit_status = 0,
       [connect_call st,
        ExecCommand (if take 5 command = ''sudo ''
                     then ''echo '' @ password st @ '' | sudo -S '' @ drop 5 command
                     else command),
        SshClose])"
  using assms by (subst exec_loop.simps) simp

lemma exec_loop_raised:
  assumes "attempt < n" and "raised (ssh attempt)"
  shows "exec_loop st ssh command n attempt
    = (fst (exec_loop st ssh command n (attempt + 1)),
       raised_calls st (if take 5 command = ''sudo ''
                        then ''echo '' @ password st @ '' | sudo -S '' @ drop 5 command
                        else command) (ssh attempt)
         @ (if attempt < n - 1 then [Sleep 5] else [])
         @ snd (exec_loop st ssh command n (attempt + 1)))"
  using assms by (subst exec_loop.simps) (cases "ssh attempt"; simp add: Let_def)

lemma raised_calls_connects [simp]:
  "length (filter is_ssh_connect (raised_calls st cmd out)) = 1"
  by (cases out) (simp_all add: connect_call_def)

lemma raised_calls_sleeps [simp]: "filter is_sleep (raised_calls st cmd out) = []"
  by (cases out) (simp_all add: connect_call_def)

lemma raised_calls_last [simp]:
  "raised_calls st cmd out \<noteq> [] \<and> \<not> is_sleep (last (raised_calls st cmd out))"
  by (cases out) (simp_all add: connect_call_def)

lemma exec_loop_all_raise:
  assumes "\<forall>j. a \<le> j \<and> j < n \<longrightarrow> raised (ssh j)" and "a < n"
  shows "\<not> fst (exec_loop st ssh command n a)
    \<and> length (filter is_ssh_connect (snd (exec_loop st ssh command n a))) = nat (n - a)
    \<and> filter is_sleep (snd (exec_loop st ssh command n a)) = replicate (nat (n - 1 - a)) (Sleep 5)
    \<and> snd (exec_loop st ssh command n a) \<noteq> []
    \<and> \<not> is_sleep (last (snd (exec_loop st ssh command n a)))"
  using assms
proof (induction "nat (n - a)" arbitrary: a)
  case 0
  then show ?case by simp
next
  case (Suc m)
  have ra: "raised (ssh a)" using Suc.prems by simp
  note step = exec_loop_raised[where st=st and command=command and ssh=ssh, OF Suc.prems(2) ra]
  show ?case
  proof (cases "a + 1 < n")
    case True
    have m: "m = nat (n - (a + 1))" using Suc.hyps(2) by linarith
    have rest: "\<forall>j. a + 1 \<le> j \<and> j < n \<longrightarrow> raised (ssh j)" using Suc.prems(1) by simp
    note ih = Suc.hyps(1)[OF m rest True]
    have k1: "nat (n - a) = Suc (nat (n - (a + 1)))" using True by linarith
    have k2: "nat (n - 1 - a) = Suc (nat (n - 1 - (a + 1)))" using True by linarith
    have lt: "a < n - 1" using True by simp
    show ?thesis
      unfolding step using ih lt by (simp add: k1 k2)
  next
    case False
    then have an: "a + 1 = n" using Suc.prems(2) by linarith
    have stop: "exec_loop st ssh command n (a + 1) = (False, [])"
      using an by (simp add: exec_loop_stop)
    have nlt: "\<not> a < n - 1" using an by simp
    have k: "nat (n - a) = 1" "nat (n - 1 - a) = 0" using an by simp_all
    show ?thesis
      unfolding step stop using nlt by (simp add: k)
  qed
qed

lemma exec_loop_all_raise_calls:
  assumes "\<forall>j. a \<le> j \<and> j < n \<longrightarrow> raised (ssh j)" and "a < n"
    and "cmd = (if take 5 command = ''sudo ''
                then ''echo '' @ password st @ '' | sudo -S '' @ drop 5 command
                else command)"
  shows "snd (exec_loop st ssh command n a)
    = concat (map (\<lambda>i. raised_calls st cmd (ssh i) @ [Sleep 5]) [a..n - 2])
        @ raised_calls st cmd (ssh (n - 1))"
  using assms(1,2)
proof (induction "nat (n - a)" arbitrary: a)
  case 0
  then show ?case by simp
next
  case (Suc m)
  have ra: "raised (ssh a)" using Suc.prems by simp
  note step = exec_loop_raised[where st=st and command=command and ssh=ssh, OF Suc.prems(2) ra, folded assms(3)]
  show ?case
  proof (cases "a + 1 < n")
    case True
    have m: "m = nat (n - (a + 1))" using Suc.hyps(2) by linarith
    have rest: "\<forall>j. a + 1 \<le> j \<and> j < n \<longrightarrow> raised (ssh j)" using Suc.prems(1) by simp
    note ih = Suc.hyps(1)[OF m rest True]
    have lt: "a < n - 1" using True by simp
    have up: "[a..n - 2] = a # [a + 1..n - 2]" using True by (simp add: upto_rec1)
    show ?thesis
      unfolding step using ih lt by (simp add: up)
  next
    case False
    then have an: "a + 1 = n" using Suc.prems(2) by linarith
    have stop: "exec_loop st ssh command n (a + 1) = (False, [])"
      using an by (simp add: exec_loop_stop)
    have nlt: "\<not> a < n - 1" using an by simp
    have up: "[a..n - 2] = []" using an by simp
    have last: "n - 1 = a" using an by simp
    show ?thesis
      unfolding step stop using nlt by (simp add: up last)
  qed
qed

lemma transmitted_append [simp]: "transmitted (xs @ ys) = transmitted xs @ transmitted ys"
  by (induction xs rule: transmitted.induct) simp_all

lemma transmitted_raised_calls:
  "set (transmitted (raised_calls st cmd out)) \<subseteq> {cmd}"
  by (cases out) (simp_all add: connect_call_def)


text \<open>
  Claim C3.  Let the companion be configured (an address and a non-empty secret, so that the
  loop is entered) and let the attempt count be \<open>n > 0\<close>, given as argument or taken from the
  executor.  If every attempt \<open>0, ..., n - 1\<close> ends in an exception (authentication, transport,
  or a failure while executing), then \<open>execute_command\<close> returns \<open>False\<close>, calls \<open>ssh.connect\<close>
  exactly \<open>n\<close> times and sleeps exactly \<open>n - 1\<close> times, 5 seconds each; the calls are those of
  attempts \<open>0, ..., n - 2\<close>, each followed by one sleep, and then those of attempt \<open>n - 1\<close>
  with no sleep after it.
\<close>

theorem execute_command_retries:
  assumes "truthy (current_ip st)" and "password st \<noteq> []"
    and "n = (case max_arg of None \<Rightarrow> max_attempts st | Some m \<Rightarrow> m)" and "0 < n"
    and "\<forall>i. 0 \<le> i \<and> i < n \<longrightarrow> raised (ssh i)"
    and "cmd = (if take 5 command = ''sudo ''
                then ''echo '' @ password st @ '' | sudo -S '' @ drop 5 command
                else command)"
  shows "\<not> fst (execute_command st ssh command max_arg)
    \<and> length (filter is_ssh_connect (snd (execute_command st ssh command max_arg))) = nat n
    \<and> filter is_sleep (snd (execute_command st ssh command max_arg))
        = replicate (nat (n - 1)) (Sleep 5)
    \<and> snd (execute_command st ssh command max_arg)
        = concat (map (\<lambda>i. raised_calls st cmd (ssh i) @ [Sleep 5]) [0..n - 2])
            @ raised_calls st cmd (ssh (n - 1))
    \<and> \<not> is_sleep (last (snd (execute_command st ssh command max_arg)))"
proof -
  have unfold: "execute_command st ssh command max_arg = exec_loop st ssh command n 0"
    using assms(1,2,3) by (simp add: execute_command_def)
  have all: "\<forall>j. 0 \<le> j \<and> j < n \<longrightarrow> raised (ssh j)" using assms(5) .
  from exec_loop_all_raise[where a=0 and st=st and command=command, OF all assms(4)]
    exec_loop_all_raise_calls[where a=0, OF all assms(4) assms(6)]
  show ?thesis unfolding unfold by simp
qed

theorem execute_command_retries_witness:
  "\<not> fst (execute_command default_executor
             (\<lambda>i. if i = 0 then ExecFailed else if i = 1 then AuthFailed else ConnectFailed)
             ''sudo reboot'' None)
   \<and> snd (execute_command default_executor
             (\<lambda>i. if i = 0 then ExecFailed else if i = 1 then AuthFailed else ConnectFailed)
             ''sudo reboot'' None)
       = [SshConnect (Some ''10.5.6.100'') ''2222'' ''roz'' ''default_password'' 5,
          ExecCommand ''echo default_password | sudo -S reboot'', SshClose, Sleep 5,
          SshConnect (Some ''10.5.6.100'') ''2222'' ''roz'' ''default_password'' 5, Sleep 5,
          SshConnect (Some ''10.5.6.100'') ''2222'' ''roz'' ''default_password'' 5]"
proof -
  let ?ssh = "\<lambda>i::int. if i = 0 then ExecFailed else if i = 1 then AuthFailed else ConnectFailed"
  have cfg: "truthy (current_ip default_executor)" "password default_executor \<noteq> []"
    by (simp_all add: default_executor_def)
  have n: "(3::int) = (case None of None \<Rightarrow> max_attempts default_executor | Some m \<Rightarrow> m)"
    by (simp add: default_executor_def)
  have pos: "(0::int) < 3" by simp
  have all: "\<forall>i. 0 \<le> i \<and> i < (3::int) \<longrightarrow> raised (?ssh i)" by simp
  have cmd: "''echo default_password | sudo -S reboot''
      = (if take 5 ''sudo reboot'' = ''sudo ''
         then ''echo '' @ password default_executor @ '' | sudo -S '' @ drop 5 ''sudo reboot''
         else ''sudo reboot'')"
    by (simp add: default_executor_def)
  have up: "[0..(3::int) - 2] = [0, 1]" by (simp add: upto_rec1)
  note spec = execute_command_retries[OF cfg n pos all cmd]
  have res: "\<not> fst (execute_command default_executor ?ssh ''sudo reboot'' None)"
    using spec by blast
  have calls: "snd (execute_command default_executor ?ssh ''sudo reboot'' None)
      = concat (map (\<lambda>i. raised_calls default_executor
                            ''echo default_password | sudo -S reboot'' (?ssh i) @ [Sleep 5])
                 [0..3 - 2])
          @ raised_calls default_executor ''echo default_password | sudo -S reboot'' (?ssh (3 - 1))"
    using spec by blast
  show ?thesis
    unfolding calls up using res by (simp add: connect_call_def default_executor_def)
qed

text \<open>
  Claim C4.  With the companion configured and at least one attempt allowed, if the first
  session connects and the remote command finishes with a non-zero exit status, then
  \<open>execute_command\<close> returns \<open>False\<close> from that attempt: the calls made are one connect, the
  command and the close, with no sleep and no second connect, whatever the attempt count.
\<close>

theorem execute_command_nonzero_exit:
  assumes "truthy (current_ip st)" and "password st \<noteq> []"
    and "0 < (case max_arg of None \<Rightarrow> max_attempts st | Some m \<Rightarrow> m)"
    and "ssh 0 = Exited exit_status out err" and "exit_status \<noteq> 0"
  shows "execute_command st ssh command max_arg
    = (False,
       [connect_call st,
        ExecCommand (if take 5 command = ''sudo ''
                     then ''echo '' @ password st @ '' | sudo -S '' @ drop 5 command
                     else command),
        SshClose])"
  using assms exec_loop_exited[where st=st and command=command and ssh=ssh, OF assms(3) assms(4)]
  by (simp add: execute_command_def)

theorem execute_command_nonzero_exit_witness:
  "execute_command default_executor (\<lambda>i. Exited 1 [] ''ls: cannot access'') ''ls /nowhere''
      (Some 7)
    = (False,
       [SshConnect (Some ''10.5.6.100'') ''2222'' ''roz'' ''default_password'' 5,
        ExecCommand ''ls /nowhere'', SshClose])"
proof -
  have cfg: "truthy (current_ip default_executor)" "password default_executor \<noteq> []"
    by (simp_all add: default_executor_def)
  have pos: "0 < (case Some 7 of None \<Rightarrow> max_attempts default_executor | Some m \<Rightarrow> m)"
    by simp
  have first: "(\<lambda>i::int. Exited 1 [] ''ls: cannot access'') 0 = Exited 1 [] ''ls: cannot access''"
    by simp
  have nz: "(1::int) \<noteq> 0" by simp
  from execute_command_nonzero_exit[OF cfg pos first nz, of "''ls /nowhere''"]
  show ?thesis
    by (simp add: connect_call_def default_executor_def)
qed



lemma capture_loop_stop:
  "\<not> attempt < n \<Longrightarrow> capture_loop st ssh command n attempt
     = ((False, [], ''max attempts exceeded'', - 1), [])"
  by (subst capture_loop.simps) simp

lemma capture_loop_exited:
  assumes "attempt < n" and "ssh attempt = Exited exit_status out err"
  shows "capture_loop st ssh command n attempt
    = ((exit_status = 0, out, err, exit_status),
       [connect_call st, ExecCommand command, SshClose])"
  using assms by (subst capture_loop.simps) simp

lemma capture_loop_raised:
  assumes "attempt < n" and "raised (ssh attempt)"
  shows "capture_loop st ssh command n attempt
    = (fst (capture_loop st ssh command n (attempt + 1)),
       raised_calls st command (ssh attempt)
         @ (if attempt < n - 1 then [Sleep 5] else [])
         @ snd (capture_loop st ssh command n (attempt + 1)))"
  using assms by (subst capture_loop.simps) (cases "ssh attempt"; simp)

lemma transmitted_raised_calls_eq:
  "transmitted (raised_calls st cmd out) = transmitted (raised_calls st' cmd out)"
  by (cases out) (simp_all add: connect_call_def)

lemma capture_loop_transmitted:
  "set (transmitted (snd (capture_loop st ssh command n a))) \<subseteq> {command}"
proof (induction "nat (n - a)" arbitrary: a)
  case 0
  then have "\<not> a < n" by simp
  then show ?case by (simp add: capture_loop_stop)
next
  case (Suc m)
  have lt: "a < n" using Suc.hyps(2) by linarith
  have m: "m = nat (n - (a + 1))" using Suc.hyps(2) by linarith
  note ih = Suc.hyps(1)[OF m]
  show ?case
  proof (cases "raised (ssh a)")
    case True
    show ?thesis
      unfolding capture_loop_raised[where st=st and command=command and ssh=ssh, OF lt True]
      using ih transmitted_raised_calls[of st command "ssh a"] by auto
  next
    case False
    then obtain exit_status out err where ex: "ssh a = Exited exit_status out err"
      by (cases "ssh a") simp_all
    show ?thesis
      unfolding capture_loop_exited[where st=st and command=command and ssh=ssh, OF lt ex]
      by (simp add: connect_call_def)
  qed
qed

lemma capture_loop_secret_free:
  "transmitted (snd (capture_loop st ssh command n a))
     = transmitted (snd (capture_loop st' ssh command n a))"
proof (induction "nat (n - a)" arbitrary: a)
  case 0
  then have "\<not> a < n" by simp
  then show ?case by (simp add: capture_loop_stop)
next
  case (Suc m)
  have lt: "a < n" using Suc.hyps(2) by linarith
  have m: "m = nat (n - (a + 1))" using Suc.hyps(2) by linarith
  note ih = Suc.hyps(1)[OF m]
  show ?case
  proof (cases "raised (ssh a)")
    case True
    show ?thesis
      unfolding capture_loop_raised[where command=command and ssh=ssh, OF lt True]
      using ih transmitted_raised_calls_eq[of st command "ssh a" st'] by simp
  next
    case False
    then obtain exit_status out err where ex: "ssh a = Exited exit_status out err"
      by (cases "ssh a") simp_all
    show ?thesis
      unfolding capture_loop_exited[where command=command and ssh=ssh, OF lt ex]
      by (simp add: connect_call_def)
  qed
qed

text \<open>
  Claim C10.  Every string that \<open>execute_command_capture\<close> hands to \<open>exec_command\<close> is the
  command as given, whether or not it starts with \<open>sudo \<close>; and the strings transmitted
  are the same for any two non-empty secrets the executor may hold.
\<close>

theorem execute_command_capture_verbatim:
  "(\<forall>c \<in> set (transmitted (snd (execute_command_capture st ssh command max_arg))). c = command)
   \<and> (password st \<noteq> [] \<and> secret \<noteq> [] \<longrightarrow>
        transmitted (snd (execute_command_capture (st\<lparr>password := secret\<rparr>) ssh command max_arg))
          = transmitted (snd (execute_command_capture st ssh command max_arg)))"
proof -
  have "set (transmitted (snd (execute_command_capture st ssh command max_arg))) \<subseteq> {command}"
    using capture_loop_transmitted[of st ssh command] by (simp add: execute_command_capture_def)
  moreover have "transmitted
        (snd (execute_command_capture (st\<lparr>password := secret\<rparr>) ssh command max_arg))
      = transmitted (snd (execute_command_capture st ssh command max_arg))"
    if "password st \<noteq> []" "secret \<noteq> []"
    using that capture_loop_secret_free[of "st\<lparr>password := secret\<rparr>" ssh command _ 0 st]
    by (cases max_arg) (simp_all add: execute_command_capture_def)
  ultimately show ?thesis by auto
qed

theorem execute_command_capture_verbatim_witness:
  "transmitted (snd (execute_command_capture default_executor
       (\<lambda>i. if i = 0 then ExecFailed else Exited 0 ''active'' [])
       ''sudo systemctl is-active cam'' None))
     = [''sudo systemctl is-active cam'', ''sudo systemctl is-active cam'']
   \<and> transmitted (snd (execute_command_capture (default_executor\<lparr>password := ''hunter2''\<rparr>)
       (\<lambda>i. if i = 0 then ExecFailed else Exited 0 ''active'' [])
       ''sudo systemctl is-active cam'' None))
     = [''sudo systemctl is-active cam'', ''sudo systemctl is-active cam'']"
proof -
  let ?ssh = "\<lambda>i::int. if i = 0 then ExecFailed else Exited 0 ''active'' []"
  have a: "transmitted (snd (execute_command_capture default_executor ?ssh
       ''sudo systemctl is-active cam'' None))
     = [''sudo systemctl is-active cam'', ''sudo systemctl is-active cam'']"
    by (simp add: execute_command_capture_def capture_loop.simps default_executor_def
        connect_call_def)
  have pw: "password default_executor \<noteq> [] \<and> ''hunter2'' \<noteq> []"
    by (simp add: default_executor_def)
  from execute_command_capture_verbatim[of default_executor ?ssh
      "''sudo systemctl is-active cam''" None "''hunter2''"] pw
  have "transmitted (snd (execute_command_capture (default_executor\<lparr>password := ''hunter2''\<rparr>)
       ?ssh ''sudo systemctl is-active cam'' None))
     = transmitted (snd (execute_command_capture default_executor ?ssh
       ''sudo systemctl is-active cam'' None))"
    by blast
  then show ?thesis using a by simp
qed

text \<open>
  Whatever the two runs return, \<open>execute_command_all\<close> leaves the executor as it found it:
  \<open>current_ip\<close> and \<open>current_port\<close> are written back after the second run.
\<close>

lemma execute_command_all_frame:
  "fst (snd (execute_command_all st ssh1 ssh2 command)) = st"
  by (simp add: execute_command_all_def Let_def)

lemma test_connection_fails_over:
  "test_connection two_path_executor secondary_only
     = (Some ''10.5.6.101'', failed_over,
        [TcpConnect (Some ''10.5.6.100'') ''2222'' 5, Sleep 5,
         TcpConnect (Some ''10.5.6.100'') ''2222'' 5, Sleep 5,
         TcpConnect (Some ''10.5.6.100'') ''2222'' 5,
         TcpConnect (Some ''10.5.6.101'') ''22'' 5])"
  by (simp add: test_connection_def is_reachable_def reach_loop.simps Let_def failed_over_def
      two_path_executor_def default_executor_def secondary_only_def)

text \<open>
  Claim C8.  \<open>execute_command_all\<close> is to succeed only if the command succeeds against the
  primary configuration and, when a secondary is configured, against the secondary, and to
  leave ActiveTarget as it was.  On the executor with primary \<open>10.5.6.100:2222\<close> and
  secondary \<open>10.5.6.101:22\<close> it does so as long as the executor points at the primary: one
  session to each address, the executor unchanged.  The run the source names \<open>primary\<close>
  goes to \<open>current_ip\<close>, though, and a failover in \<open>test_connection\<close> has overwritten that
  with the secondary address: from then on both sessions go to \<open>10.5.6.101:22\<close>, the primary
  is not contacted, and the call returns \<open>True\<close>.
\<close>

theorem execute_command_all_after_failover:
  "execute_command_all two_path_executor (prints []) (prints []) ''sync''
     = (True, two_path_executor,
        [SshConnect (Some ''10.5.6.100'') ''2222'' ''roz'' ''default_password'' 5,
         ExecCommand ''sync'', SshClose,
         SshConnect (Some ''10.5.6.101'') ''22'' ''roz'' ''default_password'' 5,
         ExecCommand ''sync'', SshClose])
   \<and> fst (snd (test_connection two_path_executor secondary_only)) = failed_over
   \<and> execute_command_all failed_over (prints []) (prints []) ''sync''
     = (True, failed_over,
        [SshConnect (Some ''10.5.6.101'') ''22'' ''roz'' ''default_password'' 5,
         ExecCommand ''sync'', SshClose,
         SshConnect (Some ''10.5.6.101'') ''22'' ''roz'' ''default_password'' 5,
         ExecCommand ''sync'', SshClose])"
proof -
  have before: "execute_command_all two_path_executor (prints []) (prints []) ''sync''
     = (True, two_path_executor,
        [SshConnect (Some ''10.5.6.100'') ''2222'' ''roz'' ''default_password'' 5,
         ExecCommand ''sync'', SshClose,
         SshConnect (Some ''10.5.6.101'') ''22'' ''roz'' ''default_password'' 5,
         ExecCommand ''sync'', SshClose])"
    by (simp add: execute_command_all_def execute_command_def exec_loop.simps prints_def
        two_path_executor_def default_executor_def connect_call_def)
  have after: "execute_command_all failed_over (prints []) (prints []) ''sync''
     = (True, failed_over,
        [SshConnect (Some ''10.5.6.101'') ''22'' ''roz'' ''default_password'' 5,
         ExecCommand ''sync'', SshClose,
         SshConnect (Some ''10.5.6.101'') ''22'' ''roz'' ''default_password'' 5,
         ExecCommand ''sync'', SshClose])"
    by (simp add: execute_command_all_def execute_command_def exec_loop.simps prints_def
        failed_over_def two_path_executor_def default_executor_def connect_call_def)
  show ?thesis
    unfolding before after by (simp add: test_connection_fails_over)
qed

section \<open>Properties of the connection test\<close>

lemma reach_loop_iff:
  "fst (reach_loop conn ip port t n 0) \<longleftrightarrow> (\<exists>i. 0 \<le> i \<and> i < n \<and> conn i)"
proof (cases "\<exists>i. 0 \<le> i \<and> i < n \<and> conn i")
  case True
  then obtain i where i: "0 \<le> i" "i < n" "conn i" by blast
  from first_success_exists[of i conn] i(1) i(3) obtain k where
    k: "0 \<le> k" "k \<le> i" "conn k" "\<forall>j. 0 \<le> j \<and> j < k \<longrightarrow> \<not> conn j" by blast
  have "k < n" using k(2) i(2) by simp
  from reach_loop_first_success[of 0 k conn n ip port t] k this True
  show ?thesis by simp
next
  case False
  show ?thesis
  proof (cases "0 < n")
    case True
    from False have "\<forall>j. 0 \<le> j \<and> j < n \<longrightarrow> \<not> conn j" by blast
    from reach_loop_all_fail[of 0 n conn ip port t, OF this True] False
    show ?thesis by simp
  next
    case nonpos: False
    then have "reach_loop conn ip port t n 0 = (False, [])"
      by (subst reach_loop.simps) simp
    then show ?thesis using False by simp
  qed
qed

lemma is_reachable_default_iff:
  "fst (is_reachable st conn ip port None None)
     \<longleftrightarrow> (\<exists>i. 0 \<le> i \<and> i < max_attempts st \<and> conn i)"
  by (simp add: is_reachable_def reach_loop_iff)

text \<open>
  While the executor points at the primary: if no attempt reaches that address and a
  configured secondary answers, \<open>test_connection\<close> returns the secondary host and leaves
  \<open>current_ip\<close> and \<open>current_port\<close> at the secondary address.
\<close>

lemma test_connection_selects_secondary:
  assumes "\<forall>i. 0 \<le> i \<and> i < max_attempts st \<longrightarrow> \<not> net (current_ip st) (current_port st) i"
    and "truthy (secondary_ip st)"
    and "\<exists>i. 0 \<le> i \<and> i < max_attempts st \<and> net (secondary_ip st) (secondary_port st) i"
  shows "fst (test_connection st net) = secondary_ip st
    \<and> current_ip (fst (snd (test_connection st net))) = secondary_ip st
    \<and> current_port (fst (snd (test_connection st net))) = secondary_port st"
proof -
  have down: "\<not> fst (is_reachable st (net (current_ip st) (current_port st))
      (current_ip st) (current_port st) None None)"
    using assms(1) by (simp add: is_reachable_default_iff)
  have up: "fst (is_reachable st (net (secondary_ip st) (secondary_port st))
      (secondary_ip st) (secondary_port st) None None)"
    using assms(3) by (simp add: is_reachable_default_iff)
  show ?thesis
    using down up assms(2) by (simp add: test_connection_def Let_def)
qed

text \<open>
  Claim C1.  \<open>test_connection\<close> is to select the secondary when the primary is down and the
  secondary answers, and to start from the primary again on every later call.  The first
  part holds on the executor with primary \<open>10.5.6.100:2222\<close> and secondary \<open>10.5.6.101:22\<close>;
  the second does not.  The failover overwrites \<open>current_ip\<close> and \<open>current_port\<close>, the only
  place the executor keeps the primary address, so the next call probes the secondary as if
  it were the primary.  With every address answering it returns the secondary after one
  connection to it; with only the primary answering it probes the secondary twice over,
  never the primary, and returns \<open>None\<close>.
\<close>

theorem test_connection_after_failover:
  "current_ip two_path_executor = Some ''10.5.6.100''
   \<and> fst (test_connection two_path_executor secondary_only) = Some ''10.5.6.101''
   \<and> fst (snd (test_connection two_path_executor secondary_only)) = failed_over
   \<and> test_connection failed_over all_up
       = (Some ''10.5.6.101'', failed_over, [TcpConnect (Some ''10.5.6.101'') ''22'' 5])
   \<and> test_connection failed_over primary_only
       = (None, failed_over,
          [TcpConnect (Some ''10.5.6.101'') ''22'' 5, Sleep 5,
           TcpConnect (Some ''10.5.6.101'') ''22'' 5, Sleep 5,
           TcpConnect (Some ''10.5.6.101'') ''22'' 5,
           TcpConnect (Some ''10.5.6.101'') ''22'' 5, Sleep 5,
           TcpConnect (Some ''10.5.6.101'') ''22'' 5, Sleep 5,
           TcpConnect (Some ''10.5.6.101'') ''22'' 5])"
proof -
  have second: "test_connection failed_over all_up
       = (Some ''10.5.6.101'', failed_over, [TcpConnect (Some ''10.5.6.101'') ''22'' 5])"
    by (simp add: test_connection_def is_reachable_def reach_loop.simps Let_def failed_over_def
        two_path_executor_def default_executor_def all_up_def)
  have third: "test_connection failed_over primary_only
       = (None, failed_over,
          [TcpConnect (Some ''10.5.6.101'') ''22'' 5, Sleep 5,
           TcpConnect (Some ''10.5.6.101'') ''22'' 5, Sleep 5,
           TcpConnect (Some ''10.5.6.101'') ''22'' 5,
           TcpConnect (Some ''10.5.6.101'') ''22'' 5, Sleep 5,
           TcpConnect (Some ''10.5.6.101'') ''22'' 5, Sleep 5,
           TcpConnect (Some ''10.5.6.101'') ''22'' 5])"
    by (simp add: test_connection_def is_reachable_def reach_loop.simps Let_def failed_over_def
        two_path_executor_def default_executor_def primary_only_def)
  show ?thesis
    unfolding second third test_connection_fails_over
    by (simp add: two_path_executor_def default_executor_def)
qed

section \<open>Properties of the float model\<close>

lemma exp_up_eq:
  assumes "e0 \<le> e" and "nat (e - e0) \<le> fuel"
    and "2 powi e \<le> a" and "a < 2 powi (e + 1)"
  shows "exp_up fuel a e0 = e"
  using assms(1,2)
proof (induction "nat (e - e0)" arbitrary: e0 fuel)
  case 0
  then have "e0 = e" by simp
  then show ?case using assms(4) by (subst exp_up.simps) simp
next
  case (Suc m)
  have lt: "e0 < e" using Suc.hyps(2) by linarith
  have fuel: "fuel \<noteq> 0" using Suc.hyps(2) Suc.prems(2) by linarith
  have "(2::real) powi (e0 + 1) \<le> 2 powi e"
    using lt by (intro power_int_increasing) simp_all
  then have ge: "\<not> a < 2 powi (e0 + 1)" using assms(3) by linarith
  have m: "m = nat (e - (e0 + 1))" using Suc.hyps(2) by linarith
  have le: "e0 + 1 \<le> e" using lt by simp
  have f: "nat (e - (e0 + 1)) \<le> fuel - 1" using Suc.prems(2) lt by linarith
  have "exp_up fuel a e0 = exp_up (fuel - 1) a (e0 + 1)"
    using fuel ge by (subst exp_up.simps) simp
  also have "\<dots> = e" by (rule Suc.hyps(1)[OF m le f])
  finally show ?case .
qed

lemma exp_down_eq:
  assumes "e \<le> e0" and "nat (e0 - e) \<le> fuel"
    and "2 powi e \<le> a" and "a < 2 powi (e + 1)"
  shows "exp_down fuel a e0 = e"
  using assms(1,2)
proof (induction "nat (e0 - e)" arbitrary: e0 fuel)
  case 0
  then have "e0 = e" by simp
  then show ?case using assms(3) by (subst exp_down.simps) simp
next
  case (Suc m)
  have lt: "e < e0" using Suc.hyps(2) by linarith
  have fuel: "fuel \<noteq> 0" using Suc.hyps(2) Suc.prems(2) by linarith
  have "(2::real) powi (e + 1) \<le> 2 powi e0"
    using lt by (intro power_int_increasing) simp_all
  then have ge: "\<not> 2 powi e0 \<le> a" using assms(4) by linarith
  have m: "m = nat (e0 - 1 - e)" using Suc.hyps(2) by linarith
  have le: "e \<le> e0 - 1" using lt by simp
  have f: "nat (e0 - 1 - e) \<le> fuel - 1" using Suc.prems(2) lt by linarith
  have "exp_down fuel a e0 = exp_down (fuel - 1) a (e0 - 1)"
    using fuel ge by (subst exp_down.simps) simp
  also have "\<dots> = e" by (rule Suc.hyps(1)[OF m le f])
  finally show ?case .
qed

lemma binade_eq:
  assumes "- 1022 \<le> e" and "e \<le> 1023"
    and "2 powi e \<le> a" and "a < 2 powi (e + 1)"
  shows "binade a = e"
proof (cases "1 \<le> a")
  case True
  have "0 \<le> e"
  proof (rule ccontr)
    assume "\<not> 0 \<le> e"
    then have "(2::real) powi (e + 1) \<le> 2 powi 0"
      by (intro power_int_increasing) simp_all
    then show False using assms(4) True by simp
  qed
  then have "exp_up 1024 a 0 = e"
    using assms(2) by (intro exp_up_eq assms(3,4)) simp_all
  then show ?thesis using True by (simp add: binade_def)
next
  case False
  have "e < 0"
  proof (rule ccontr)
    assume "\<not> e < 0"
    then have "(2::real) powi 0 \<le> 2 powi e"
      by (intro power_int_increasing) simp_all
    then show False using assms(3) False by simp
  qed
  then have "exp_down 1022 a 0 = e"
    using assms(1) by (intro exp_down_eq assms(3,4)) simp_all
  then show ?thesis using False by (simp add: binade_def)
qed

text \<open>How a rounding is computed once the binade of the argument is known.\<close>

lemma to_double_eval:
  assumes "- 1022 \<le> e" and "e \<le> 1023"
    and "2 powi e \<le> \<bar>x\<bar>" and "\<bar>x\<bar> < 2 powi (e + 1)"
    and "rnd_even (\<bar>x\<bar> / 2 powi (e - 52)) = m"
    and "r = of_int m * 2 powi (e - 52)" and "r < 2 powi 1024"
  shows "to_double x = Finite (if x < 0 then - r else r)"
proof -
  have b: "binade \<bar>x\<bar> = e" by (rule binade_eq[OF assms(1-4)])
  have "to_double x
      = (if (2::real) powi 1024 \<le> of_int m * 2 powi (e - 52) then NonFinite
         else Finite (if x < 0 then - (of_int m * 2 powi (e - 52))
                      else of_int m * 2 powi (e - 52)))"
    by (simp only: to_double_def Let_def b assms(5))
  then show ?thesis using assms(6,7) by simp
qed

lemma rnd_even_of_int [simp]: "rnd_even (of_int m) = m"
  by (simp add: rnd_even_def Let_def)

lemma to_double_of_int:
  assumes "\<bar>k\<bar> < 2 ^ 53"
  shows "to_double (of_int k) = Finite (of_int k)"
proof (cases "k = 0")
  case True
  have "rnd_even 0 = 0" using rnd_even_of_int[of 0] by simp
  then show ?thesis using True by (simp add: to_double_def Let_def)
next
  case False
  define e where "e = bitlen \<bar>k\<bar> - 1"
  have pos: "0 < \<bar>k\<bar>" using False by simp
  from bitlen_bounds[OF pos]
  have lo: "2 ^ nat e \<le> \<bar>k\<bar>" and hi: "\<bar>k\<bar> < 2 ^ nat (e + 1)"
    by (simp_all add: e_def)
  have e0: "0 \<le> e" using pos bitlen_eq_zero_iff[of "\<bar>k\<bar>"] bitlen_nonneg[of "\<bar>k\<bar>"]
    by (simp add: e_def)
  have e52: "e \<le> 52"
  proof (rule ccontr)
    assume "\<not> e \<le> 52"
    then have "53 \<le> nat e" by simp
    then have "(2::int) ^ 53 \<le> 2 ^ nat e" by (intro power_increasing) simp_all
    then show False using lo assms by linarith
  qed
  have lo': "2 powi e \<le> \<bar>real_of_int k\<bar>"
  proof -
    have "real_of_int (2 ^ nat e) \<le> real_of_int \<bar>k\<bar>" using lo by (simp only: of_int_le_iff)
    then show ?thesis using e0 by (simp add: power_int_def)
  qed
  have hi': "\<bar>real_of_int k\<bar> < 2 powi (e + 1)"
  proof -
    have "real_of_int \<bar>k\<bar> < real_of_int (2 ^ nat (e + 1))"
      using hi by (simp only: of_int_less_iff)
    then show ?thesis using e0 by (simp add: power_int_def)
  qed
  have q: "(2::real) powi (e - 52) = 1 / 2 ^ nat (52 - e)"
    using e52 by (cases "e = 52") (simp_all add: power_int_def field_simps)
  have scaled: "\<bar>real_of_int k\<bar> / 2 powi (e - 52) = real_of_int (\<bar>k\<bar> * 2 ^ nat (52 - e))"
    by (simp add: q)
  have m: "rnd_even (\<bar>real_of_int k\<bar> / 2 powi (e - 52)) = \<bar>k\<bar> * 2 ^ nat (52 - e)"
    unfolding scaled by (rule rnd_even_of_int)
  have r: "\<bar>real_of_int k\<bar> = real_of_int (\<bar>k\<bar> * 2 ^ nat (52 - e)) * 2 powi (e - 52)"
    by (simp add: q)
  have "real_of_int \<bar>k\<bar> < real_of_int (2 ^ 53)" using assms by (simp only: of_int_less_iff)
  also have "\<dots> \<le> 2 powi 1024" by simp
  finally have small: "\<bar>real_of_int k\<bar> < 2 powi 1024" by simp
  have "to_double (of_int k)
      = Finite (if real_of_int k < 0 then - \<bar>real_of_int k\<bar> else \<bar>real_of_int k\<bar>)"
    using e0 e52 by (intro to_double_eval[OF _ _ lo' hi' m r small]) simp_all
  then show ?thesis by (simp add: abs_if)
qed

lemma fmt1_of_int:
  assumes "\<bar>k\<bar> < 2 ^ 53"
  shows "fmt1 (Finite (of_int k)) = Finite (of_int k)"
proof -
  have "real_of_int k * 10 = real_of_int (k * 10)" by simp
  then have "rnd_even (real_of_int k * 10) = k * 10" by (simp only: rnd_even_of_int)
  then show ?thesis using to_double_of_int[OF assms] by (simp add: fmt1.simps)
qed

declare fmt1.simps [simp del]

section \<open>Properties of the temperature probe\<close>

text \<open>Roundings used by the examples, each computed from the binade of its argument.\<close>

lemma double_9_999: "to_double (9999 / 1000) = Finite (5628936584259699 / 562949953421312)"
proof -
  let ?x = "9999 / 1000 :: real"
  let ?r = "5628936584259699 / 562949953421312 :: real"
  have lo: "2 powi 3 \<le> \<bar>?x\<bar>" by simp
  have hi: "\<bar>?x\<bar> < 2 powi (3 + 1)" by simp
  have m: "rnd_even (\<bar>?x\<bar> / 2 powi (3 - 52)) = 5628936584259699"
    by (simp add: rnd_even_def Let_def)
  have r: "?r = of_int 5628936584259699 * 2 powi (3 - 52)" by simp
  have small: "?r < 2 powi 1024" by simp
  have "to_double ?x = Finite (if ?x < 0 then - ?r else ?r)"
    by (rule to_double_eval[OF _ _ lo hi m r small]) simp_all
  also have "(if ?x < 0 then - ?r else ?r) = ?r" by simp
  finally show ?thesis .
qed

lemma double_45_15: "to_double (903 / 20) = Finite (6354297599243059 / 140737488355328)"
proof -
  let ?x = "903 / 20 :: real"
  let ?r = "6354297599243059 / 140737488355328 :: real"
  have lo: "2 powi 5 \<le> \<bar>?x\<bar>" by simp
  have hi: "\<bar>?x\<bar> < 2 powi (5 + 1)" by simp
  have m: "rnd_even (\<bar>?x\<bar> / 2 powi (5 - 52)) = 6354297599243059"
    by (simp add: rnd_even_def Let_def)
  have r: "?r = of_int 6354297599243059 * 2 powi (5 - 52)" by simp
  have small: "?r < 2 powi 1024" by simp
  have "to_double ?x = Finite (if ?x < 0 then - ?r else ?r)"
    by (rule to_double_eval[OF _ _ lo hi m r small]) simp_all
  also have "(if ?x < 0 then - ?r else ?r) = ?r" by simp
  finally show ?thesis .
qed

lemma double_45_1: "to_double (451 / 10) = Finite (6347260724825293 / 140737488355328)"
proof -
  let ?x = "451 / 10 :: real"
  let ?r = "6347260724825293 / 140737488355328 :: real"
  have lo: "2 powi 5 \<le> \<bar>?x\<bar>" by simp
  have hi: "\<bar>?x\<bar> < 2 powi (5 + 1)" by simp
  have m: "rnd_even (\<bar>?x\<bar> / 2 powi (5 - 52)) = 6347260724825293"
    by (simp add: rnd_even_def Let_def)
  have r: "?r = of_int 6347260724825293 * 2 powi (5 - 52)" by simp
  have small: "?r < 2 powi 1024" by simp
  have "to_double ?x = Finite (if ?x < 0 then - ?r else ?r)"
    by (rule to_double_eval[OF _ _ lo hi m r small]) simp_all
  also have "(if ?x < 0 then - ?r else ?r) = ?r" by simp
  finally show ?thesis .
qed

lemma double_45_125: "to_double (361 / 8) = Finite (361 / 8)"
proof -
  let ?x = "361 / 8 :: real"
  let ?r = "361 / 8 :: real"
  have lo: "2 powi 5 \<le> \<bar>?x\<bar>" by simp
  have hi: "\<bar>?x\<bar> < 2 powi (5 + 1)" by simp
  have m: "rnd_even (\<bar>?x\<bar> / 2 powi (5 - 52)) = 6350779162034176"
    by (simp add: rnd_even_def Let_def)
  have r: "?r = of_int 6350779162034176 * 2 powi (5 - 52)" by simp
  have small: "?r < 2 powi 1024" by simp
  have "to_double ?x = Finite (if ?x < 0 then - ?r else ?r)"
    by (rule to_double_eval[OF _ _ lo hi m r small]) simp_all
  also have "(if ?x < 0 then - ?r else ?r) = ?r" by simp
  finally show ?thesis .
qed

lemma double_2_5: "to_double (5 / 2) = Finite (5 / 2)"
proof -
  let ?x = "5 / 2 :: real"
  let ?r = "5 / 2 :: real"
  have lo: "2 powi 1 \<le> \<bar>?x\<bar>" by simp
  have hi: "\<bar>?x\<bar> < 2 powi (1 + 1)" by simp
  have m: "rnd_even (\<bar>?x\<bar> / 2 powi (1 - 52)) = 5629499534213120"
    by (simp add: rnd_even_def Let_def)
  have r: "?r = of_int 5629499534213120 * 2 powi (1 - 52)" by simp
  have small: "?r < 2 powi 1024" by simp
  have "to_double ?x = Finite (if ?x < 0 then - ?r else ?r)"
    by (rule to_double_eval[OF _ _ lo hi m r small]) simp_all
  also have "(if ?x < 0 then - ?r else ?r) = ?r" by simp
  finally show ?thesis .
qed

lemma double_0_25: "to_double (1 / 4) = Finite (1 / 4)"
proof -
  let ?x = "1 / 4 :: real"
  let ?r = "1 / 4 :: real"
  have lo: "2 powi (-2) \<le> \<bar>?x\<bar>" by simp
  have hi: "\<bar>?x\<bar> < 2 powi ((-2) + 1)" by simp
  have m: "rnd_even (\<bar>?x\<bar> / 2 powi ((-2) - 52)) = 4503599627370496"
    by (simp add: rnd_even_def Let_def)
  have r: "?r = of_int 4503599627370496 * 2 powi ((-2) - 52)" by simp
  have small: "?r < 2 powi 1024" by simp
  have "to_double ?x = Finite (if ?x < 0 then - ?r else ?r)"
    by (rule to_double_eval[OF _ _ lo hi m r small]) simp_all
  also have "(if ?x < 0 then - ?r else ?r) = ?r" by simp
  finally show ?thesis .
qed

lemma double_0_2: "to_double (1 / 5) = Finite (3602879701896397 / 18014398509481984)"
proof -
  let ?x = "1 / 5 :: real"
  let ?r = "3602879701896397 / 18014398509481984 :: real"
  have lo: "2 powi (-3) \<le> \<bar>?x\<bar>" by simp
  have hi: "\<bar>?x\<bar> < 2 powi ((-3) + 1)" by simp
  have m: "rnd_even (\<bar>?x\<bar> / 2 powi ((-3) - 52)) = 7205759403792794"
    by (simp add: rnd_even_def Let_def)
  have r: "?r = of_int 7205759403792794 * 2 powi ((-3) - 52)" by simp
  have small: "?r < 2 powi 1024" by simp
  have "to_double ?x = Finite (if ?x < 0 then - ?r else ?r)"
    by (rule to_double_eval[OF _ _ lo hi m r small]) simp_all
  also have "(if ?x < 0 then - ?r else ?r) = ?r" by simp
  finally show ?thesis .
qed

lemma double_50_02: "to_double (2501 / 50) = Finite (7039689167533507 / 140737488355328)"
proof -
  let ?x = "2501 / 50 :: real"
  let ?r = "7039689167533507 / 140737488355328 :: real"
  have lo: "2 powi 5 \<le> \<bar>?x\<bar>" by simp
  have hi: "\<bar>?x\<bar> < 2 powi (5 + 1)" by simp
  have m: "rnd_even (\<bar>?x\<bar> / 2 powi (5 - 52)) = 7039689167533507"
    by (simp add: rnd_even_def Let_def)
  have r: "?r = of_int 7039689167533507 * 2 powi (5 - 52)" by simp
  have small: "?r < 2 powi 1024" by simp
  have "to_double ?x = Finite (if ?x < 0 then - ?r else ?r)"
    by (rule to_double_eval[OF _ _ lo hi m r small]) simp_all
  also have "(if ?x < 0 then - ?r else ?r) = ?r" by simp
  finally show ?thesis .
qed

lemma double_18_02: "to_double (2536089540163011 / 140737488355328) = Finite (2536089540163011 / 140737488355328)"
proof -
  let ?x = "2536089540163011 / 140737488355328 :: real"
  let ?r = "2536089540163011 / 140737488355328 :: real"
  have lo: "2 powi 4 \<le> \<bar>?x\<bar>" by simp
  have hi: "\<bar>?x\<bar> < 2 powi (4 + 1)" by simp
  have m: "rnd_even (\<bar>?x\<bar> / 2 powi (4 - 52)) = 5072179080326022"
    by (simp add: rnd_even_def Let_def)
  have r: "?r = of_int 5072179080326022 * 2 powi (4 - 52)" by simp
  have small: "?r < 2 powi 1024" by simp
  have "to_double ?x = Finite (if ?x < 0 then - ?r else ?r)"
    by (rule to_double_eval[OF _ _ lo hi m r small]) simp_all
  also have "(if ?x < 0 then - ?r else ?r) = ?r" by simp
  finally show ?thesis .
qed

lemma double_45_05: "to_double (12680447700815055 / 281474976710656) = Finite (792527981300941 / 17592186044416)"
proof -
  let ?x = "12680447700815055 / 281474976710656 :: real"
  let ?r = "792527981300941 / 17592186044416 :: real"
  have lo: "2 powi 5 \<le> \<bar>?x\<bar>" by simp
  have hi: "\<bar>?x\<bar> < 2 powi (5 + 1)" by simp
  have m: "rnd_even (\<bar>?x\<bar> / 2 powi (5 - 52)) = 6340223850407528"
    by (simp add: rnd_even_def Let_def)
  have r: "?r = of_int 6340223850407528 * 2 powi (5 - 52)" by simp
  have small: "?r < 2 powi 1024" by simp
  have "to_double ?x = Finite (if ?x < 0 then - ?r else ?r)"
    by (rule to_double_eval[OF _ _ lo hi m r small]) simp_all
  also have "(if ?x < 0 then - ?r else ?r) = ?r" by simp
  finally show ?thesis .
qed

lemmas text_eval = strip_def is_space_def is_digit_def is_word_def number_at_def celsius_at_def
  py_float_def digitpart_def decimal_def digit_value_def ascii_lower_def Let_def

lemma py_float_empty: "py_float [] = None"
  by (simp add: py_float_def digitpart_def Let_def)

lemma py_float_examples:
  "py_float ''9999'' = Some (Finite 9999)"
  "py_float ''45150'' = Some (Finite 45150)"
  "py_float ''45'' = Some (Finite 45)"
  "py_float ''52'' = Some (Finite 52)"
  "py_float ''58'' = Some (Finite 58)"
  "py_float ''33'' = Some (Finite 33)"
  "py_float ''45.125'' = Some (Finite (361 / 8))"
  "py_float ''45.15'' = Some (Finite (6354297599243059 / 140737488355328))"
  "py_float ''50.02'' = Some (Finite (7039689167533507 / 140737488355328))"
proof -
  show "py_float ''9999'' = Some (Finite 9999)"
    using to_double_of_int[of 9999] by (simp add: text_eval)
  show "py_float ''45150'' = Some (Finite 45150)"
    using to_double_of_int[of 45150] by (simp add: text_eval)
  show "py_float ''45'' = Some (Finite 45)"
    using to_double_of_int[of 45] by (simp add: text_eval)
  show "py_float ''52'' = Some (Finite 52)"
    using to_double_of_int[of 52] by (simp add: text_eval)
  show "py_float ''58'' = Some (Finite 58)"
    using to_double_of_int[of 58] by (simp add: text_eval)
  show "py_float ''33'' = Some (Finite 33)"
    using to_double_of_int[of 33] by (simp add: text_eval)
  show "py_float ''45.125'' = Some (Finite (361 / 8))"
    using double_45_125 by (simp add: text_eval)
  show "py_float ''45.15'' = Some (Finite (6354297599243059 / 140737488355328))"
    using double_45_15 by (simp add: text_eval)
  show "py_float ''50.02'' = Some (Finite (7039689167533507 / 140737488355328))"
    using double_50_02 by (simp add: text_eval)
qed

lemma fmt1_examples:
  "fmt1 (Finite (5628936584259699 / 562949953421312)) = Finite 10"
  "fmt1 (Finite (6354297599243059 / 140737488355328)) = to_double (451 / 10)"
  "fmt1 (Finite (361 / 8)) = to_double (451 / 10)"
  "fmt1 (Finite (792527981300941 / 17592186044416)) = to_double (451 / 10)"
  "fmt1 (Finite (1 / 4)) = to_double (1 / 5)"
proof -
  show "fmt1 (Finite (5628936584259699 / 562949953421312)) = Finite 10"
    using to_double_of_int[of 10] by (simp add: fmt1.simps rnd_even_def Let_def)
  show "fmt1 (Finite (6354297599243059 / 140737488355328)) = to_double (451 / 10)"
    by (simp add: fmt1.simps rnd_even_def Let_def)
  show "fmt1 (Finite (361 / 8)) = to_double (451 / 10)"
    by (simp add: fmt1.simps rnd_even_def Let_def)
  show "fmt1 (Finite (792527981300941 / 17592186044416)) = to_double (451 / 10)"
    by (simp add: fmt1.simps rnd_even_def Let_def)
  show "fmt1 (Finite (1 / 4)) = to_double (1 / 5)"
    by (simp add: fmt1.simps rnd_even_def Let_def)
qed

text \<open>
  Three texts on which the binary value decides the digit printed: the sensor value
  \<open>45150\<close> divided by 1000 and the driver value \<open>45.15\<close> are both held as a float just
  below 45.15 and come out as 45.1; the legacy transform of the raw text \<open>50.02\<close> is held
  just above 45.05 and comes out as 45.1.
\<close>

lemma tier_c_45150: "tier_c ''45150'' = Reading (to_double (451 / 10))"
  using double_45_15 by (simp add: tier_c_def py_float_examples fmt1_examples Let_def)

lemma kept_45_15: "kept ''45.15'' = Some (6354297599243059 / 140737488355328)"
  by (simp add: kept_def py_float_examples)

lemma legacy_tier_a_50_02:
  "legacy_tier_a default_executor (True, ''50.02'', [], 0) = Some (to_double (451 / 10))"
proof -
  have raw: "py_float (strip ''50.02'') = Some (Finite (7039689167533507 / 140737488355328))"
    using py_float_examples(9) by (simp add: strip_def is_space_def)
  have offset: "to_double (wifi_temp_offset default_executor) = Finite 32"
    using to_double_of_int[of 32] by (simp add: default_executor_def)
  have scale: "to_double (wifi_temp_scale default_executor) = Finite (5 / 2)"
    using double_2_5 by (simp add: default_executor_def)
  have diff: "fl_op (-) (Finite (7039689167533507 / 140737488355328)) (Finite 32)
      = Finite (2536089540163011 / 140737488355328)"
    using double_18_02 by simp
  have prod: "fl_op (*) (Finite (2536089540163011 / 140737488355328)) (Finite (5 / 2))
      = Finite (792527981300941 / 17592186044416)"
    using double_45_05 by simp
  have nonempty: "strip ''50.02'' \<noteq> []" by (simp add: strip_def is_space_def)
  show ?thesis
    using nonempty
    by (simp add: legacy_tier_a_def raw offset scale diff prod fmt1_examples Let_def
        del: fl_op.simps)
qed

lemma max_list_Max: "xs \<noteq> [] \<Longrightarrow> max_list xs = Max (set xs)"
  by (induction xs rule: max_list.induct) simp_all

lemma set_map_filter: "set (List.map_filter f xs) = {y. \<exists>x \<in> set xs. f x = Some y}"
  by (induction xs) (auto simp: List.map_filter_simps split: option.splits)

lemma kept_iff:
  "kept num = Some t \<longleftrightarrow> py_float num = Some (Finite t) \<and> - 40 \<le> t \<and> t \<le> 130"
  by (auto simp: kept_def split: option.splits pyfloat.splits)

lemma silent_pick_iface:
  "pick_iface default_executor
     (silent_remote\<lparr>thermal_state_out := f, hwmon_out := h\<rparr>) = Some ''wlx782288d993c0''"
  by (simp add: pick_iface_def safe_read_def silent_remote_def default_executor_def text_eval)

lemma thermal_temps_examples:
  "thermal_temps [] = []"
  "thermal_temps ''temperature: 45 temperature: 52'' = [45, 52]"
  "thermal_temps ''temperature: 45.125'' = [361 / 8]"
  "thermal_temps ''temperature: 45.15'' = [6354297599243059 / 140737488355328]"
proof -
  have m: "temperature_matches ''temperature: 45 temperature: 52'' = [''45'', ''52'']"
    "temperature_matches ''temperature: 45.125'' = [''45.125'']"
    "temperature_matches ''temperature: 45.15'' = [''45.15'']"
    by (simp_all add: number_at_def is_digit_def is_space_def Let_def)
  show "thermal_temps [] = []" by (simp add: thermal_temps_def List.map_filter_simps)
  show "thermal_temps ''temperature: 45 temperature: 52'' = [45, 52]"
    unfolding thermal_temps_def m
    by (simp add: List.map_filter_simps kept_def py_float_examples)
  show "thermal_temps ''temperature: 45.125'' = [361 / 8]"
    unfolding thermal_temps_def m
    by (simp add: List.map_filter_simps kept_def py_float_examples)
  show "thermal_temps ''temperature: 45.15'' = [6354297599243059 / 140737488355328]"
    unfolding thermal_temps_def m
    by (simp add: List.map_filter_simps kept_def py_float_examples)
qed

lemma tier_c_9999: "tier_c ''9999'' = Reading (Finite 10)"
  using double_9_999 by (simp add: tier_c_def py_float_examples fmt1_examples Let_def)

lemma hwmon_9999_tiers:
  "connects hwmon_9999"
  "pick_iface default_executor hwmon_9999 = Some ''wlx782288d993c0''"
  "tier_a hwmon_9999 ''wlx782288d993c0'' = NoReading"
  "safe_read (wfb_cli_out hwmon_9999) = Some []"
  "tier_b [] = NoReading"
  "safe_read (hwmon_out hwmon_9999) = Some ''9999''"
proof -
  show "connects hwmon_9999" by (simp add: hwmon_9999_def silent_remote_def)
  show "pick_iface default_executor hwmon_9999 = Some ''wlx782288d993c0''"
    using silent_pick_iface[where f="\<lambda>iface. Some []" and h="Some ''9999\<newline>''"]
    by (simp add: hwmon_9999_def silent_remote_def)
  show "tier_a hwmon_9999 ''wlx782288d993c0'' = NoReading"
    by (simp add: tier_a_def thermal_temps_examples safe_read_def hwmon_9999_def
        silent_remote_def strip_def)
  show "safe_read (wfb_cli_out hwmon_9999) = Some []"
    by (simp add: safe_read_def hwmon_9999_def silent_remote_def strip_def)
  show "tier_b [] = NoReading" by (simp add: tier_b_def)
  show "safe_read (hwmon_out hwmon_9999) = Some ''9999''"
    by (simp add: safe_read_def hwmon_9999_def silent_remote_def strip_def is_space_def)
qed

text \<open>
  Claim C2, as the code has it.  When the session opens, an interface is picked, Tiers A
  and B yield no reading and the sensor file holds the raw value \<open>9999\<close>, the function
  returns 10.0: the value exceeds 200 and is divided by 1000, the quotient 9.999 lies in
  [-40, 130], and it is returned rounded to one decimal.
\<close>

theorem tier_c_raw_9999:
  assumes "connects env" and "pick_iface st env = Some iface"
    and "tier_a env iface = NoReading"
    and "safe_read (wfb_cli_out env) = Some out" and "tier_b out = NoReading"
    and "safe_read (hwmon_out env) = Some ''9999''"
  shows "get_wifi_module_temperature st env = Some (Finite 10)"
  using assms by (simp add: get_wifi_module_temperature_def tier_c_9999)

theorem tier_c_raw_9999_witness:
  "get_wifi_module_temperature default_executor hwmon_9999 = Some (Finite 10)"
  by (rule tier_c_raw_9999[OF hwmon_9999_tiers])

text \<open>
  The claim as worded fails: with nothing from Tiers A and B and the sensor file holding
  \<open>9999\<close>, the value returned is not \<open>None\<close>.
\<close>

theorem tier_c_9999_counterexample:
  "tier_a hwmon_9999 ''wlx782288d993c0'' = NoReading
   \<and> tier_b [] = NoReading
   \<and> safe_read (hwmon_out hwmon_9999) = Some ''9999''
   \<and> get_wifi_module_temperature default_executor hwmon_9999 \<noteq> None"
proof -
  have "get_wifi_module_temperature default_executor hwmon_9999 = Some (Finite 10)"
    by (simp add: get_wifi_module_temperature_def hwmon_9999_tiers tier_c_9999)
  then show ?thesis by (simp add: hwmon_9999_tiers)
qed

text \<open>
  Claim C7, as the code has it.  When the session opens and a non-empty interface name is
  picked, let \<open>proc_out\<close> be the stripped text of its \<open>thermal_state\<close> file.  The values
  kept are those of the \<open>temperature: <number>\<close> occurrences that lie in [-40, 130]; if
  there is at least one, the function returns their maximum rounded to one decimal.  For
  the text \<open>temperature: 45 temperature: 52\<close> it returns 52.0.
\<close>

theorem tier_a_hottest_path:
  assumes "connects env" and "pick_iface st env = Some iface" and "iface \<noteq> []"
    and "safe_read (thermal_state_out env iface) = Some proc_out"
  shows "set (thermal_temps proc_out)
      = {t. \<exists>num \<in> set (temperature_matches proc_out).
              py_float num = Some (Finite t) \<and> - 40 \<le> t \<and> t \<le> 130}
    \<and> (thermal_temps proc_out \<noteq> [] \<longrightarrow>
         get_wifi_module_temperature st env
           = Some (fmt1 (Finite (Max (set (thermal_temps proc_out))))))
    \<and> (proc_out = ''temperature: 45 temperature: 52'' \<longrightarrow>
         get_wifi_module_temperature st env = Some (Finite 52))"
proof -
  have kept_set: "set (thermal_temps proc_out)
      = {t. \<exists>num \<in> set (temperature_matches proc_out).
              py_float num = Some (Finite t) \<and> - 40 \<le> t \<and> t \<le> 130}"
    by (simp add: thermal_temps_def set_map_filter kept_iff)
  have hottest: "get_wifi_module_temperature st env
      = Some (fmt1 (Finite (Max (set (thermal_temps proc_out)))))"
    if "thermal_temps proc_out \<noteq> []"
    using assms that
    by (simp add: get_wifi_module_temperature_def tier_a_def max_list_Max)
  have "get_wifi_module_temperature st env = Some (Finite 52)"
    if "proc_out = ''temperature: 45 temperature: 52''"
  proof -
    have temps: "thermal_temps proc_out = [45, 52]"
      unfolding that by (rule thermal_temps_examples)
    have "fmt1 (Finite 52) = Finite 52" using fmt1_of_int[of 52] by simp
    then show ?thesis
      using assms by (simp add: get_wifi_module_temperature_def tier_a_def temps)
  qed
  then show ?thesis using kept_set hottest by blast
qed

theorem tier_a_hottest_path_witness:
  "get_wifi_module_temperature default_executor two_paths = Some (Finite 52)
   \<and> get_wifi_module_temperature default_executor reported_45_15 = Some (to_double (451 / 10))"
proof -
  have n: "''wlx782288d993c0'' \<noteq> []" by simp
  have c: "connects two_paths" by (simp add: two_paths_def silent_remote_def)
  have p: "pick_iface default_executor two_paths = Some ''wlx782288d993c0''"
    using silent_pick_iface[where f="\<lambda>iface. Some ''temperature: 45 temperature: 52''"
        and h="Some []"]
    by (simp add: two_paths_def silent_remote_def)
  have r: "safe_read (thermal_state_out two_paths ''wlx782288d993c0'')
      = Some ''temperature: 45 temperature: 52''"
    by (simp add: safe_read_def two_paths_def silent_remote_def strip_def is_space_def)
  have first: "get_wifi_module_temperature default_executor two_paths = Some (Finite 52)"
    using tier_a_hottest_path[OF c p n r] by blast
  have c': "connects reported_45_15" by (simp add: reported_45_15_def silent_remote_def)
  have p': "pick_iface default_executor reported_45_15 = Some ''wlx782288d993c0''"
    using silent_pick_iface[where f="\<lambda>iface. Some ''temperature: 45.15''" and h="Some []"]
    by (simp add: reported_45_15_def silent_remote_def)
  have r': "safe_read (thermal_state_out reported_45_15 ''wlx782288d993c0'')
      = Some ''temperature: 45.15''"
    by (simp add: safe_read_def reported_45_15_def silent_remote_def strip_def is_space_def)
  have "thermal_temps ''temperature: 45.15'' \<noteq> []" by (simp add: thermal_temps_examples)
  with tier_a_hottest_path[OF c' p' n r']
  have "get_wifi_module_temperature default_executor reported_45_15
      = Some (fmt1 (Finite (Max (set (thermal_temps ''temperature: 45.15'')))))"
    by blast
  then have second: "get_wifi_module_temperature default_executor reported_45_15
      = Some (to_double (451 / 10))"
    by (simp add: thermal_temps_examples fmt1_examples)
  show ?thesis using first second by simp
qed

text \<open>
  The claim as worded fails where a parsed value has more than one decimal: for the text
  \<open>temperature: 45.125\<close> the only value kept is 45.125, and the function returns the float
  written 45.1.
\<close>

theorem tier_a_rounding_counterexample:
  "thermal_temps ''temperature: 45.125'' = [361 / 8]
   \<and> get_wifi_module_temperature default_executor fine_grained
       = Some (Finite (6347260724825293 / 140737488355328))
   \<and> get_wifi_module_temperature default_executor fine_grained
       \<noteq> Some (Finite (Max (set (thermal_temps ''temperature: 45.125''))))"
proof -
  have p: "pick_iface default_executor fine_grained = Some ''wlx782288d993c0''"
    using silent_pick_iface[where f="\<lambda>iface. Some ''temperature: 45.125''" and h="Some []"]
    by (simp add: fine_grained_def silent_remote_def)
  have r: "safe_read (thermal_state_out fine_grained ''wlx782288d993c0'')
      = Some ''temperature: 45.125''"
    by (simp add: safe_read_def fine_grained_def silent_remote_def strip_def is_space_def)
  have c: "connects fine_grained" by (simp add: fine_grained_def silent_remote_def)
  have "get_wifi_module_temperature default_executor fine_grained = Some (to_double (451 / 10))"
    by (simp add: get_wifi_module_temperature_def c p r tier_a_def thermal_temps_examples
        fmt1_examples)
  then have res: "get_wifi_module_temperature default_executor fine_grained
      = Some (Finite (6347260724825293 / 140737488355328))"
    by (simp only: double_45_1)
  show ?thesis
    unfolding res by (simp add: thermal_temps_examples)
qed

text \<open>
  Claim C9, as the code has it.  In the legacy variant, when the \<open>thermal_state\<close> command
  succeeds and its stripped output is an integer register value \<open>k\<close>, the computed
  temperature is \<open>(k - offset) * scale\<close> in float arithmetic.  If it lies in [-40, 130] it
  is returned, rounded to one decimal; if it does not but \<open>k\<close> lies in [-40, 130], the raw
  value \<open>k\<close> is returned instead.  Raw 58 with offset 32 and scale 2.5 yields 65.0.
\<close>

theorem legacy_linear_transform:
  assumes "fst (execute_command_capture st ssh_proc (proc_cmd st) None) = (True, out, err, code)"
    and "py_float (strip out) = Some (Finite (of_int k))"
    and "celsius = fl_op (*) (fl_op (-) (Finite (of_int k)) (to_double (wifi_temp_offset st)))
                             (to_double (wifi_temp_scale st))"
  shows "(in_clamp celsius \<longrightarrow>
           get_wifi_module_temperature_v1_1 st ssh_proc ssh_sysfs = Some (fmt1 celsius))
    \<and> (\<not> in_clamp celsius \<and> - 40 \<le> k \<and> k \<le> 130 \<longrightarrow>
           get_wifi_module_temperature_v1_1 st ssh_proc ssh_sysfs = Some (Finite (of_int k)))
    \<and> (k = 58 \<and> wifi_temp_offset st = 32 \<and> wifi_temp_scale st = 5 / 2 \<longrightarrow>
           get_wifi_module_temperature_v1_1 st ssh_proc ssh_sysfs = Some (Finite 65))"
proof -
  have nonempty: "strip out \<noteq> []" using assms(2) py_float_empty by auto
  have direct: "get_wifi_module_temperature_v1_1 st ssh_proc ssh_sysfs = Some (fmt1 celsius)"
    if "in_clamp celsius"
    using that nonempty assms(2)
    unfolding get_wifi_module_temperature_v1_1_def assms(1) legacy_tier_a_def assms(3)
    by (simp add: Let_def)
  have fallback: "get_wifi_module_temperature_v1_1 st ssh_proc ssh_sysfs
      = Some (Finite (of_int k))"
    if "\<not> in_clamp celsius" "- 40 \<le> k" "k \<le> 130"
  proof -
    have "\<bar>k\<bar> < 2 ^ 53" using that(2,3) by simp
    then have same: "fmt1 (Finite (of_int k)) = Finite (of_int k)" by (rule fmt1_of_int)
    have raw: "in_clamp (Finite (of_int k))" using that(2,3) by simp
    show ?thesis
      using that(1) raw nonempty assms(2) same
      unfolding get_wifi_module_temperature_v1_1_def assms(1) legacy_tier_a_def assms(3)
      by (simp add: Let_def)
  qed
  have "get_wifi_module_temperature_v1_1 st ssh_proc ssh_sysfs = Some (Finite 65)"
    if "k = 58" "wifi_temp_offset st = 32" "wifi_temp_scale st = 5 / 2"
  proof -
    have "fl_op (-) (Finite 58) (Finite 32) = Finite 26"
      using to_double_of_int[of 26] by simp
    moreover have "fl_op (*) (Finite 26) (Finite (5 / 2)) = Finite 65"
      using to_double_of_int[of 65] by simp
    moreover have "to_double 32 = Finite 32" using to_double_of_int[of 32] by simp
    ultimately have c: "celsius = Finite 65"
      unfolding assms(3) that by (simp only: double_2_5 of_int_numeral)
    then have "in_clamp celsius" by simp
    from direct[OF this] show ?thesis
      unfolding c using fmt1_of_int[of 65] by simp
  qed
  then show ?thesis using direct fallback by blast
qed

theorem legacy_linear_transform_witness:
  "get_wifi_module_temperature_v1_1 default_executor
     (prints ''58\<newline>'') unreachable = Some (Finite 65)"
proof -
  have cap: "fst (execute_command_capture default_executor (prints ''58\<newline>'')
        (proc_cmd default_executor) None) = (True, ''58\<newline>'', [], 0)"
    by (simp add: execute_command_capture_def capture_loop.simps default_executor_def prints_def)
  have raw: "py_float (strip ''58\<newline>'') = Some (Finite (of_int 58))"
    using py_float_examples(5) by (simp add: strip_def is_space_def)
  have cfg: "wifi_temp_offset default_executor = 32" "wifi_temp_scale default_executor = 5 / 2"
    by (simp_all add: default_executor_def)
  from legacy_linear_transform[OF cap raw refl, of unreachable] cfg
  show ?thesis by blast
qed

text \<open>
  The claim as worded fails where the transformed value has more than one decimal: with
  offset 32 and scale 0.25 in the settings, the register value 33 transforms to 0.25, which
  is in range, and the function returns the float written 0.2, not 0.25.
\<close>

theorem legacy_rounding_counterexample:
  "py_float (strip ''33\<newline>'') = Some (Finite 33)
   \<and> fl_op (*) (fl_op (-) (Finite 33) (to_double (wifi_temp_offset quarter_scale)))
               (to_double (wifi_temp_scale quarter_scale)) = Finite (1 / 4)
   \<and> get_wifi_module_temperature_v1_1 quarter_scale (prints ''33\<newline>'') unreachable
       = Some (Finite (3602879701896397 / 18014398509481984))
   \<and> get_wifi_module_temperature_v1_1 quarter_scale (prints ''33\<newline>'') unreachable
       \<noteq> Some (Finite (1 / 4))"
proof -
  have cap: "fst (execute_command_capture quarter_scale (prints ''33\<newline>'')
        (proc_cmd quarter_scale) None) = (True, ''33\<newline>'', [], 0)"
    by (simp add: execute_command_capture_def capture_loop.simps quarter_scale_def
        default_executor_def prints_def)
  have stripped: "strip ''33\<newline>'' = ''33''" by (simp add: strip_def is_space_def)
  have raw: "py_float (strip ''33\<newline>'') = Some (Finite 33)"
    unfolding stripped by (rule py_float_examples)
  have offset: "to_double (wifi_temp_offset quarter_scale) = Finite 32"
    using to_double_of_int[of 32] by (simp add: quarter_scale_def default_executor_def)
  have scale: "to_double (wifi_temp_scale quarter_scale) = Finite (1 / 4)"
    using double_0_25 by (simp add: quarter_scale_def)
  have diff: "fl_op (-) (Finite 33) (Finite 32) = Finite 1"
    using to_double_of_int[of 1] by simp
  have prod: "fl_op (*) (Finite 1) (Finite (1 / 4)) = Finite (1 / 4)"
    using double_0_25 by simp
  have celsius: "fl_op (*) (fl_op (-) (Finite 33) (to_double (wifi_temp_offset quarter_scale)))
               (to_double (wifi_temp_scale quarter_scale)) = Finite (1 / 4)"
    by (simp only: offset scale diff prod)
  have "get_wifi_module_temperature_v1_1 quarter_scale (prints ''33\<newline>'') unreachable
       = Some (to_double (1 / 5))"
    unfolding get_wifi_module_temperature_v1_1_def cap legacy_tier_a_def
    by (simp add: stripped raw[unfolded stripped] celsius fmt1_examples Let_def del: fl_op.simps)
  then have res: "get_wifi_module_temperature_v1_1 quarter_scale (prints ''33\<newline>'')
        unreachable = Some (Finite (3602879701896397 / 18014398509481984))"
    by (simp only: double_0_2)
  show ?thesis
    unfolding res celsius raw by simp
qed

end
